theory Spec2Isabelle
  imports Main "HOL-Library.AList"
begin

section \<open>The Go runtime the store relies on\<close>

text \<open>
  Go's \<open>int\<close> is a 64-bit two's complement integer on the platforms the server runs on:
  sums and products wrap around. The model computes on \<open>int\<close> and writes the
  wrap-around out.
\<close>

definition wrap64 :: "int \<Rightarrow> int" where
  "wrap64 x = (x + 9223372036854775808) mod 18446744073709551616 - 9223372036854775808"

definition add64 :: "int \<Rightarrow> int \<Rightarrow> int" where
  "add64 a b = wrap64 (a + b)"

definition mul64 :: "int \<Rightarrow> int \<Rightarrow> int" where
  "mul64 a b = wrap64 (a * b)"

text \<open>
  \<open>strconv.Atoi\<close> reads an optional sign and decimal digits. Every caller in the store
  drops the error (\<open>n, _ := strconv.Atoi(s)\<close>), so the model returns the value alone:
  0 on a syntax error, the nearest bound on a range error.
\<close>

definition digit_of :: "char \<Rightarrow> int option" where
  "digit_of c = map_of
     [(CHR ''0'', 0), (CHR ''1'', 1), (CHR ''2'', 2), (CHR ''3'', 3), (CHR ''4'', 4),
      (CHR ''5'', 5), (CHR ''6'', 6), (CHR ''7'', 7), (CHR ''8'', 8), (CHR ''9'', 9)] c"

fun digits_value :: "int \<Rightarrow> string \<Rightarrow> int option" where
  "digits_value acc [] = Some acc"
| "digits_value acc (c # cs) =
     (case digit_of c of None \<Rightarrow> None | Some d \<Rightarrow> digits_value (acc * 10 + d) cs)"

definition Atoi :: "string \<Rightarrow> int" where
  "Atoi s =
     (case s of
        [] \<Rightarrow> 0
      | c # cs \<Rightarrow>
          (let body = (if c = CHR ''-'' \<or> c = CHR ''+'' then cs else s) in
           if body = [] then 0
           else case digits_value 0 body of
                  None \<Rightarrow> 0
                | Some n \<Rightarrow>
                    (if c = CHR ''-'' then max (- n) (- 9223372036854775808)
                     else min n 9223372036854775807)))"

text \<open>\<open>strconv.Itoa\<close> writes the decimal digits, with a leading minus sign below zero.\<close>

definition digit_char :: "nat \<Rightarrow> char" where
  "digit_char n = ''0123456789'' ! (n mod 10)"

fun nat_digits :: "nat \<Rightarrow> string" where
  "nat_digits n =
     (if n < 10 then [digit_char n] else nat_digits (n div 10) @ [digit_char (n mod 10)])"

declare nat_digits.simps [simp del]

definition Itoa :: "int \<Rightarrow> string" where
  "Itoa i = (if i < 0 then CHR ''-'' # nat_digits (nat (- i)) else nat_digits (nat i))"

section \<open>The data model\<close>

text \<open>
  The structs come from the models package, which the store imports; the fields below
  are the ones the store's functions read and write. A Go map that the store ranges
  over is an association list, whose order stands for the order the runtime happens
  to take; a nil map and an empty map read alike, and both are the empty list.
\<close>

record vote =
  vote_GameBin :: string
  vote_Source :: string
  vote_StepBin :: string
  vote_Choice :: string

record result =
  res_Bin :: string
  res_StepBin :: string
  res_GameBin :: string
  res_GamerId :: string
  res_TimeStamp :: string
  res_Vote :: vote

record step =
  step_Bin :: string
  step_StepType :: string
  step_Duration :: string
  step_Command :: string
  step_StepIndex :: int
  step_RequiresVote :: bool
  step_VoteType :: string
  step_NextStep :: string
  step_StartTime :: string
  step_EndTime :: string
  step_Result :: "(string \<times> result list) list"

record gamer =
  gamer_Bin :: string
  gamer_GameId :: string
  gamer_CharacterId :: string
  gamer_IsAlive :: bool

record game =
  game_Bin :: string
  game_CurrentStep :: string
  game_Status :: string
  game_Invited :: "string list"
  game_Gamers :: "(string \<times> gamer) list"
  game_Steps :: "(string \<times> step) list"
  game_StepResults :: "(string \<times> result list) list"

record invitation =
  inv_Bin :: string
  inv_GameGroup :: string
  inv_CreatorId :: string
  inv_Status :: string
  inv_Invitation :: string
  inv_Message :: string
  inv_Time :: string
  inv_GameId :: string
  inv_Accepted :: bool
  inv_Declined :: bool

record player =
  plr_Bin :: string
  plr_UserName :: string
  plr_Status :: string
  plr_Photo :: string
  plr_Privacy :: string
  plr_Invitations :: "invitation list"
  plr_GroupIds :: "string list"

record group =
  grp_Bin :: string
  grp_GroupName :: string
  grp_Capacity :: int
  grp_Status :: string
  grp_Members :: "(string \<times> player) list"

section \<open>The remote tree and the process state\<close>

text \<open>
  The remote store is a tree addressed by path. A node with no data does not exist, so
  a player node, which the store only ever writes, is a total function of its key; its
  \<open>invitations\<close> child is keyed (by invitation bin, or by position when a Go slice was
  written). \<open>faults\<close> is the fate of the remote calls to come, one entry per call,
  \<open>True\<close> for a call that fails; calls beyond the list succeed. \<open>mu_locked\<close> is the
  process-wide mutex of \<open>Publisher\<close>.
\<close>

datatype error =
  StoreFailure
  | Deadlock
  | NilDereference
  | NilMapWrite
  | AlreadyAccepted
  | AlreadyDeclined

record player_node =
  node_invitations :: "(string \<times> invitation) list"
  node_group_ids :: "string list"

record store =
  db_players :: "string \<Rightarrow> player_node"
  db_game_groups :: "string \<rightharpoonup> group"
  db_games :: "string \<rightharpoonup> game"
  db_game_players :: "string \<rightharpoonup> (string \<times> gamer) list"
  db_steps :: "string \<rightharpoonup> step"
  faults :: "bool list"
  mu_locked :: bool

definition remote_call :: "store \<Rightarrow> bool \<times> store" where
  "remote_call st =
     (case faults st of
        [] \<Rightarrow> (True, st)
      | f # fs \<Rightarrow> (\<not> f, st\<lparr>faults := fs\<rparr>))"

section \<open>Scheduling the steps\<close>

text \<open>
  \<open>CreateStep\<close> takes the mutex, sets \<open>steps/{bin}\<close> and releases the mutex; when the
  remote call fails it returns with the mutex still held. Taking a held mutex never
  returns, which is the value \<open>Deadlock\<close>.
\<close>

definition CreateStep :: "store \<Rightarrow> step \<Rightarrow> error option \<times> store" where
  "CreateStep st b =
     (if mu_locked st then (Some Deadlock, st)
      else case remote_call st of
             (False, st') \<Rightarrow> (Some StoreFailure, st'\<lparr>mu_locked := True\<rparr>)
           | (True, st') \<Rightarrow>
               (None, st'\<lparr>db_steps := (db_steps st')(step_Bin b \<mapsto> b), mu_locked := False\<rparr>))"

text \<open>
  Both branches of the loop of \<open>AddAllStepsToDb\<close> compute the end time in the same way,
  from the start time they have just written and the step's duration in seconds:
  \<open>eTime = startTimeMillis + (stepDurationSeconds * 1000) + 500\<close>. A later step's start
  time is \<open>parsedEndTime + 500\<close>.
\<close>

definition end_time :: "string \<Rightarrow> string \<Rightarrow> string" where
  "end_time startTime duration =
     (let startTimeMillis = Atoi startTime;
          stepDurationSeconds = Atoi duration;
          eTime = add64 (add64 startTimeMillis (mul64 stepDurationSeconds 1000)) 500
      in Itoa eTime)"

definition start_after :: "string \<Rightarrow> string" where
  "start_after lastEndTime = (let parsedEndTime = Atoi lastEndTime in Itoa (add64 parsedEndTime 500))"

text \<open>
  The body of the loop \<open>for i, s := range steps\<close>. The list holds the step objects still
  to visit; the result is the error that ended the loop, if any, the objects as the loop
  leaves them, and the store. \<open>lastEndTime\<close> is assigned in the branch of the first
  step and in no other.
\<close>

fun add_steps_loop ::
  "string \<Rightarrow> string \<Rightarrow> nat \<Rightarrow> step list \<Rightarrow> store \<Rightarrow> error option \<times> step list \<times> store" where
  "add_steps_loop startTime lastEndTime i [] st = (None, [], st)"
| "add_steps_loop startTime lastEndTime i (s # rest) st =
     (let s1 = s\<lparr>step_StepIndex := int i\<rparr> in
      if i = 0 then
        (let s2 = s1\<lparr>step_StartTime := startTime,
                      step_EndTime := end_time startTime (step_Duration s1)\<rparr>
         in case CreateStep st s2 of
              (Some e, st') \<Rightarrow> (Some e, s2 # rest, st')
            | (None, st') \<Rightarrow>
                (case add_steps_loop startTime (step_EndTime s2) (Suc i) rest st' of
                   (r, rest', st'') \<Rightarrow> (r, s2 # rest', st'')))
      else
        (let s2 = s1\<lparr>step_StartTime := start_after lastEndTime\<rparr>;
             s3 = s2\<lparr>step_EndTime := end_time (step_StartTime s2) (step_Duration s2)\<rparr>
         in case CreateStep st s3 of
              (Some e, st') \<Rightarrow> (Some e, s3 # rest, st')
            | (None, st') \<Rightarrow>
                (case add_steps_loop startTime lastEndTime (Suc i) rest st' of
                   (r, rest', st'') \<Rightarrow> (r, s3 # rest', st''))))"

definition set_indices :: "step list \<Rightarrow> step list" where
  "set_indices steps = map (\<lambda>(i, s). s\<lparr>step_StepIndex := int i\<rparr>) (enumerate 0 steps)"

text \<open>
  \<open>AddAllStepsToDb\<close> gets a slice of pointers to distinct step objects. It returns
  nil (\<open>None\<close>) when a step could not be created, and otherwise the slice it grew by
  appending every visited pointer again: the objects twice over. The second component
  is the objects themselves, which the caller still holds.
\<close>

definition AddAllStepsToDb ::
  "store \<Rightarrow> step list \<Rightarrow> string \<Rightarrow> (error + step list option) \<times> step list \<times> store" where
  "AddAllStepsToDb st steps startTime =
     (case add_steps_loop startTime [] 0 (set_indices steps) st of
        (None, objs, st') \<Rightarrow> (Inr (Some (objs @ objs)), objs, st')
      | (Some Deadlock, objs, st') \<Rightarrow> (Inl Deadlock, objs, st')
      | (Some e, objs, st') \<Rightarrow> (Inr None, objs, st'))"

section \<open>Reading and updating games\<close>

definition zero_game :: game where
  "zero_game = \<lparr>game_Bin = [], game_CurrentStep = [], game_Status = [], game_Invited = [],
     game_Gamers = [], game_Steps = [], game_StepResults = []\<rparr>"

definition zero_step :: step where
  "zero_step = \<lparr>step_Bin = [], step_StepType = [], step_Duration = [], step_Command = [],
     step_StepIndex = 0, step_RequiresVote = False, step_VoteType = [], step_NextStep = [],
     step_StartTime = [], step_EndTime = [], step_Result = []\<rparr>"

text \<open>
  \<open>getGameByBin\<close> decodes into a nil pointer, which stays nil when the node does not
  exist. \<open>GetByBin\<close> decodes into a fresh struct, which stays the zero game then.
\<close>

definition getGameByBin :: "store \<Rightarrow> string \<Rightarrow> (error + game option) \<times> store" where
  "getGameByBin st bin =
     (case remote_call st of
        (False, st') \<Rightarrow> (Inl StoreFailure, st')
      | (True, st') \<Rightarrow> (Inr (db_games st' bin), st'))"

definition GetByBin_games :: "store \<Rightarrow> string \<Rightarrow> (error + game) \<times> store" where
  "GetByBin_games st b =
     (case remote_call st of
        (False, st') \<Rightarrow> (Inl StoreFailure, st')
      | (True, st') \<Rightarrow>
          (Inr (case db_games st' b of None \<Rightarrow> zero_game | Some g \<Rightarrow> g), st'))"

text \<open>
  The entries of the field map that the store passes to \<open>UpdateGame\<close>, by key:
  \<open>current_step\<close>, \<open>players\<close>, \<open>invited\<close>, \<open>steps\<close>, \<open>step_results\<close>, and the deep path
  \<open>steps/{step}/result/{gamer}\<close>. An update replaces the child at each key and leaves
  the other children alone; a nil map or slice is written as no data.
\<close>

datatype game_update =
  SetCurrentStep string
  | SetPlayers "(string \<times> gamer) list"
  | SetInvited "string list"
  | SetSteps "(string \<times> step) list"
  | SetStepResults "(string \<times> result list) list"
  | SetStepResult string string "result list"

definition lookup_list :: "(string \<times> 'a list) list \<Rightarrow> string \<Rightarrow> 'a list" where
  "lookup_list m k = (case map_of m k of None \<Rightarrow> [] | Some xs \<Rightarrow> xs)"

fun writes_no_data :: "game_update \<Rightarrow> bool" where
  "writes_no_data (SetCurrentStep c) = False"
| "writes_no_data (SetPlayers ps) = (ps = [])"
| "writes_no_data (SetInvited xs) = (xs = [])"
| "writes_no_data (SetSteps ss) = (ss = [])"
| "writes_no_data (SetStepResults rs) = (rs = [])"
| "writes_no_data (SetStepResult k gamer rs) = (rs = [])"

fun apply_game_update :: "game_update \<Rightarrow> game \<Rightarrow> game" where
  "apply_game_update (SetCurrentStep c) g = g\<lparr>game_CurrentStep := c\<rparr>"
| "apply_game_update (SetPlayers ps) g = g"
| "apply_game_update (SetInvited xs) g = g\<lparr>game_Invited := xs\<rparr>"
| "apply_game_update (SetSteps ss) g = g\<lparr>game_Steps := ss\<rparr>"
| "apply_game_update (SetStepResults rs) g = g\<lparr>game_StepResults := rs\<rparr>"
| "apply_game_update (SetStepResult k gamer rs) g =
     (let s = (case map_of (game_Steps g) k of None \<Rightarrow> zero_step | Some s \<Rightarrow> s);
          s' = s\<lparr>step_Result := AList.update gamer rs (step_Result s)\<rparr>
      in g\<lparr>game_Steps := AList.update k s' (game_Steps g)\<rparr>)"

fun apply_players_update ::
  "game_update \<Rightarrow> (string \<times> gamer) list option \<Rightarrow> (string \<times> gamer) list option" where
  "apply_players_update (SetPlayers ps) old = (if ps = [] then None else Some ps)"
| "apply_players_update u old = old"

definition UpdateGame :: "store \<Rightarrow> string \<Rightarrow> game_update list \<Rightarrow> error option \<times> store" where
  "UpdateGame st b m =
     (case remote_call st of
        (False, st') \<Rightarrow> (Some StoreFailure, st')
      | (True, st') \<Rightarrow>
          (None,
           st'\<lparr>db_games :=
                 (case db_games st' b of
                    None \<Rightarrow>
                      (if list_all writes_no_data m then db_games st'
                       else (db_games st')(b \<mapsto> fold apply_game_update m zero_game))
                  | Some g \<Rightarrow> (db_games st')(b \<mapsto> fold apply_game_update m g)),
               db_game_players :=
                 (db_game_players st')(b := fold apply_players_update m (db_game_players st' b))\<rparr>))"

section \<open>Recording a vote\<close>

text \<open>
  \<open>buildStepResult\<close> reads the clock and draws a fresh identifier; both are arguments
  here. \<open>game.Steps[game.CurrentStep]\<close> is a nil pointer when the game has no such
  step, and reading its \<open>Result\<close> field panics. The function changes the game it is
  given and returns the one entry of the field map for \<open>UpdateGame\<close>.
\<close>

definition buildStepResult ::
  "game \<Rightarrow> string \<Rightarrow> vote \<Rightarrow> string \<Rightarrow> string \<Rightarrow> error + game \<times> game_update" where
  "buildStepResult game gamerId action stamp uuid =
     (case map_of (game_Steps game) (game_CurrentStep game) of
        None \<Rightarrow> Inl NilDereference
      | Some cur \<Rightarrow>
          (let res = lookup_list (step_Result cur) gamerId @
                 [\<lparr>res_Bin = uuid, res_StepBin = vote_StepBin action,
                   res_GameBin = game_Bin game, res_GamerId = gamerId,
                   res_TimeStamp = stamp, res_Vote = action\<rparr>];
               cur' = cur\<lparr>step_Result := AList.update gamerId res (step_Result cur)\<rparr>;
               game' = game\<lparr>game_Steps :=
                 AList.update (game_CurrentStep game) cur' (game_Steps game)\<rparr>
           in Inr (game', SetStepResult (game_CurrentStep game) gamerId res)))"

text \<open>
  \<open>Vote\<close> holds the mutex from its first line to its return (a deferred unlock, which
  also runs when the function panics).
\<close>

definition Vote :: "store \<Rightarrow> vote \<Rightarrow> string \<Rightarrow> string \<Rightarrow> (error + bool) \<times> store" where
  "Vote st vote stamp uuid =
     (if mu_locked st then (Inl Deadlock, st)
      else case getGameByBin (st\<lparr>mu_locked := True\<rparr>) (vote_GameBin vote) of
             (Inl e, st1) \<Rightarrow> (Inr False, st1\<lparr>mu_locked := False\<rparr>)
           | (Inr None, st1) \<Rightarrow> (Inl NilDereference, st1\<lparr>mu_locked := False\<rparr>)
           | (Inr (Some game), st1) \<Rightarrow>
               (case buildStepResult game (vote_Source vote) vote stamp uuid of
                  Inl e \<Rightarrow> (Inl e, st1\<lparr>mu_locked := False\<rparr>)
                | Inr (game', mp) \<Rightarrow>
                    (case UpdateGame st1 (game_Bin game') [mp] of
                       (Some e, st2) \<Rightarrow> (Inr False, st2\<lparr>mu_locked := False\<rparr>)
                     | (None, st2) \<Rightarrow> (Inr True, st2\<lparr>mu_locked := False\<rparr>))))"

section \<open>Archiving the results of the steps\<close>

text \<open>
  The innermost loop of \<open>ArchiveStepResults\<close>, \<open>for _, res := range result\<close>: each result
  is appended to the game's list under the gamer id the result itself carries.
\<close>

fun archive_results ::
  "result list \<Rightarrow> (string \<times> result list) list \<Rightarrow> (string \<times> result list) list" where
  "archive_results [] stepResults = stepResults"
| "archive_results (res # rest) stepResults =
     archive_results rest
       (AList.update (res_GamerId res) (lookup_list stepResults (res_GamerId res) @ [res])
          stepResults)"

text \<open>The loop over one step's result map, \<open>for _, result := range step.Result\<close>.\<close>

fun archive_result_map ::
  "(string \<times> result list) list \<Rightarrow> (string \<times> result list) list \<Rightarrow> (string \<times> result list) list" where
  "archive_result_map [] stepResults = stepResults"
| "archive_result_map ((gamer, result) # rest) stepResults =
     archive_result_map rest (archive_results result stepResults)"

text \<open>
  The loop over the game's steps, \<open>for _, step := range game.Steps\<close>: a step that has a
  result map hands its results over and loses the map.
\<close>

fun archive_steps ::
  "(string \<times> step) list \<Rightarrow> (string \<times> result list) list \<Rightarrow>
   (string \<times> step) list \<times> (string \<times> result list) list" where
  "archive_steps [] stepResults = ([], stepResults)"
| "archive_steps ((k, step) # rest) stepResults =
     (if step_Result step \<noteq> [] then
        (case archive_steps rest (archive_result_map (step_Result step) stepResults) of
           (rest', stepResults') \<Rightarrow> ((k, step\<lparr>step_Result := []\<rparr>) # rest', stepResults'))
      else
        (case archive_steps rest stepResults of
           (rest', stepResults') \<Rightarrow> ((k, step) # rest', stepResults')))"

definition clear_results :: "(string \<times> step) list \<Rightarrow> (string \<times> step) list" where
  "clear_results steps = map (\<lambda>(k, step). (k, step\<lparr>step_Result := []\<rparr>)) steps"

definition archive_game :: "game \<Rightarrow> game" where
  "archive_game game =
     (case archive_steps (game_Steps game) (game_StepResults game) of
        (steps', stepResults') \<Rightarrow>
          game\<lparr>game_Steps := clear_results steps', game_StepResults := stepResults'\<rparr>)"

definition ArchiveStepResults :: "store \<Rightarrow> string \<Rightarrow> error option \<times> store" where
  "ArchiveStepResults st gameId =
     (case GetByBin_games st gameId of
        (Inl e, st1) \<Rightarrow> (Some e, st1)
      | (Inr g, st1) \<Rightarrow>
          (let game = archive_game g
           in UpdateGame st1 gameId
                [SetSteps (game_Steps game), SetStepResults (game_StepResults game)]))"

text \<open>
  The copy of the store in \<open>src/unnamed/part_000\<close> has another body for the same
  function. Its innermost loop reads the gamer's archived list into a local variable
  \<open>r\<close> and appends to that variable; the game's map is not assigned.
\<close>

fun archive_results_part_000 ::
  "result list \<Rightarrow> (string \<times> result list) list \<Rightarrow> (string \<times> result list) list" where
  "archive_results_part_000 [] stepResults = stepResults"
| "archive_results_part_000 (res # rest) stepResults =
     (let r = lookup_list stepResults (res_GamerId res);
          r' = r @ [res]
      in archive_results_part_000 rest stepResults)"

fun archive_result_map_part_000 ::
  "(string \<times> result list) list \<Rightarrow> (string \<times> result list) list \<Rightarrow> (string \<times> result list) list" where
  "archive_result_map_part_000 [] stepResults = stepResults"
| "archive_result_map_part_000 ((gamer, result) # rest) stepResults =
     archive_result_map_part_000 rest (archive_results_part_000 result stepResults)"

fun archive_steps_part_000 ::
  "(string \<times> step) list \<Rightarrow> (string \<times> result list) list \<Rightarrow> (string \<times> result list) list" where
  "archive_steps_part_000 [] stepResults = stepResults"
| "archive_steps_part_000 ((k, step) # rest) stepResults =
     (if step_Result step \<noteq> [] then
        archive_steps_part_000 rest (archive_result_map_part_000 (step_Result step) stepResults)
      else archive_steps_part_000 rest stepResults)"

definition archive_game_part_000 :: "game \<Rightarrow> game" where
  "archive_game_part_000 game =
     game\<lparr>game_Steps := clear_results (game_Steps game),
          game_StepResults := archive_steps_part_000 (game_Steps game) (game_StepResults game)\<rparr>"

definition ArchiveStepResults_part_000 :: "store \<Rightarrow> string \<Rightarrow> error option \<times> store" where
  "ArchiveStepResults_part_000 st gameId =
     (case GetByBin_games st gameId of
        (Inl e, st1) \<Rightarrow> (Some e, st1)
      | (Inr g, st1) \<Rightarrow>
          (let game = archive_game_part_000 g
           in UpdateGame st1 gameId
                [SetSteps (game_Steps game), SetStepResults (game_StepResults game)]))"

section \<open>Advancing the current step\<close>

text \<open>
  \<open>GetStepByBin\<close> reads \<open>steps/{bin}\<close> into a fresh struct and returns a nil step, with
  no error, when the struct's bin is still empty. \<open>SetNextStep\<close> has no result: it
  returns silently on a failed call, and panics on the nil step.
\<close>

definition GetStepByBin :: "store \<Rightarrow> string \<Rightarrow> (error + step option) \<times> store" where
  "GetStepByBin st stepBin =
     (case remote_call st of
        (False, st') \<Rightarrow> (Inl StoreFailure, st')
      | (True, st') \<Rightarrow>
          (let c = (case db_steps st' stepBin of None \<Rightarrow> zero_step | Some s \<Rightarrow> s)
           in if step_Bin c = [] then (Inr None, st') else (Inr (Some c), st')))"

definition SetNextStep :: "store \<Rightarrow> string \<Rightarrow> error option \<times> store" where
  "SetNextStep st gameId =
     (case GetByBin_games st gameId of
        (Inl e, st1) \<Rightarrow> (None, st1)
      | (Inr g, st1) \<Rightarrow>
          (case GetStepByBin st1 (game_CurrentStep g) of
             (Inl e, st2) \<Rightarrow> (None, st2)
           | (Inr None, st2) \<Rightarrow> (Some NilDereference, st2)
           | (Inr (Some currentStep), st2) \<Rightarrow>
               (let g' = g\<lparr>game_CurrentStep := step_Bin currentStep\<rparr>
                in case UpdateGame st2 gameId [SetCurrentStep (game_CurrentStep g')] of
                     (r, st3) \<Rightarrow> (None, st3))))"

section \<open>Invitations and group membership\<close>

definition zero_invitation :: invitation where
  "zero_invitation = \<lparr>inv_Bin = [], inv_GameGroup = [], inv_CreatorId = [], inv_Status = [],
     inv_Invitation = [], inv_Message = [], inv_Time = [], inv_GameId = [],
     inv_Accepted = False, inv_Declined = False\<rparr>"

definition zero_group :: group where
  "zero_group = \<lparr>grp_Bin = [], grp_GroupName = [], grp_Capacity = 0, grp_Status = [],
     grp_Members = []\<rparr>"

text \<open>A Go slice is written as an array: its elements become children keyed by position.\<close>

definition array_node :: "'a list \<Rightarrow> (string \<times> 'a) list" where
  "array_node xs = zip (map (\<lambda>i. Itoa (int i)) [0..<length xs]) xs"

text \<open>
  \<open>UpdateInvitation\<close> merges the two flags into \<open>players/{pId}/invitations/{inviteId}\<close>.
\<close>

definition UpdateInvitation ::
  "store \<Rightarrow> string \<Rightarrow> string \<Rightarrow> bool \<Rightarrow> bool \<Rightarrow> error option \<times> store" where
  "UpdateInvitation st pId inviteId accepted declined =
     (case remote_call st of
        (False, st') \<Rightarrow> (Some StoreFailure, st')
      | (True, st') \<Rightarrow>
          (let node = db_players st' pId;
               child = (case map_of (node_invitations node) inviteId of
                          None \<Rightarrow> zero_invitation | Some i \<Rightarrow> i);
               child' = child\<lparr>inv_Accepted := accepted, inv_Declined := declined\<rparr>
           in (None,
               st'\<lparr>db_players := (db_players st')
                 (pId := node\<lparr>node_invitations :=
                    AList.update inviteId child' (node_invitations node)\<rparr>)\<rparr>)))"

datatype player_update =
  SetInvitations "invitation list"
  | SetGroupIds "string list"

fun apply_player_update :: "player_update \<Rightarrow> player_node \<Rightarrow> player_node" where
  "apply_player_update (SetInvitations invs) node = node\<lparr>node_invitations := array_node invs\<rparr>"
| "apply_player_update (SetGroupIds ids) node = node\<lparr>node_group_ids := ids\<rparr>"

definition UpdatePlayer :: "store \<Rightarrow> string \<Rightarrow> player_update list \<Rightarrow> error option \<times> store" where
  "UpdatePlayer st b m =
     (case remote_call st of
        (False, st') \<Rightarrow> (Some StoreFailure, st')
      | (True, st') \<Rightarrow>
          (None, st'\<lparr>db_players := (db_players st')
                   (b := fold apply_player_update m (db_players st' b))\<rparr>))"

definition GetByBin_game_groups :: "store \<Rightarrow> string \<Rightarrow> (error + group) \<times> store" where
  "GetByBin_game_groups st b =
     (case remote_call st of
        (False, st') \<Rightarrow> (Inl StoreFailure, st')
      | (True, st') \<Rightarrow>
          (Inr (case db_game_groups st' b of None \<Rightarrow> zero_group | Some g \<Rightarrow> g), st'))"

text \<open>
  \<open>AddPlayerToGroupMembers\<close> sets \<open>game_groups/{gId}/members/{bin}\<close> to the player. With
  an empty \<open>bin\<close> the path is the members node itself, which the player then replaces.
\<close>

definition AddPlayerToGroupMembers ::
  "store \<Rightarrow> string \<Rightarrow> string \<Rightarrow> player \<Rightarrow> error option \<times> store" where
  "AddPlayerToGroupMembers st gId bin m =
     (case remote_call st of
        (False, st') \<Rightarrow> (Some StoreFailure, st')
      | (True, st') \<Rightarrow>
          (let g = (case db_game_groups st' gId of None \<Rightarrow> zero_group | Some g \<Rightarrow> g);
               members = (if bin = [] then [(bin, m)] else AList.update bin m (grp_Members g))
           in (None, st'\<lparr>db_game_groups :=
                 (db_game_groups st')(gId \<mapsto> g\<lparr>grp_Members := members\<rparr>)\<rparr>)))"

text \<open>
  \<open>UpdateGameGroup\<close> with the one field map the store passes to it, \<open>members\<close>.
\<close>

definition UpdateGameGroup_members ::
  "store \<Rightarrow> string \<Rightarrow> (string \<times> player) list \<Rightarrow> error option \<times> store" where
  "UpdateGameGroup_members st b members =
     (case remote_call st of
        (False, st') \<Rightarrow> (Some StoreFailure, st')
      | (True, st') \<Rightarrow>
          (None,
           st'\<lparr>db_game_groups :=
                 (case db_game_groups st' b of
                    None \<Rightarrow>
                      (if members = [] then db_game_groups st'
                       else (db_game_groups st')(b \<mapsto> zero_group\<lparr>grp_Members := members\<rparr>))
                  | Some g \<Rightarrow> (db_game_groups st')(b \<mapsto> g\<lparr>grp_Members := members\<rparr>))\<rparr>))"

text \<open>
  The first loop of \<open>AcceptGroupInvitation\<close>: it stops at the first invitation with the
  given bin. The result is the error that ended the function there, or the list as the
  loop leaves it and whether an invitation was found (and the remote update attempted).
\<close>

fun accept_in_list :: "invitation list \<Rightarrow> string \<Rightarrow> error + invitation list \<times> bool" where
  "accept_in_list [] invitationId = Inr ([], False)"
| "accept_in_list (iv # rest) invitationId =
     (if inv_Bin iv = invitationId then
        (if inv_Accepted iv then Inl AlreadyAccepted
         else if inv_Declined iv then Inl AlreadyDeclined
         else Inr (iv\<lparr>inv_Accepted := True, inv_Status := ''accepted''\<rparr> # rest, True))
      else
        (case accept_in_list rest invitationId of
           Inl e \<Rightarrow> Inl e
         | Inr (rest', found) \<Rightarrow> Inr (iv # rest', found)))"

text \<open>
  \<open>AcceptGroupInvitation\<close> changes the player it is given through the pointer, so the
  player is part of the result. The error of \<open>UpdateInvitation\<close> is dropped. The last
  call passes the group's bin, \<open>g.Bin\<close>, as the key of the member.
\<close>

definition AcceptGroupInvitation ::
  "store \<Rightarrow> player \<Rightarrow> string \<Rightarrow> string \<Rightarrow> (error + bool) \<times> player \<times> store" where
  "AcceptGroupInvitation st p invitationId groupId =
     (case accept_in_list (plr_Invitations p) invitationId of
        Inl e \<Rightarrow> (Inl e, p, st)
      | Inr (invs, found) \<Rightarrow>
          (let p1 = p\<lparr>plr_Invitations := invs\<rparr>;
               st1 = (if found then snd (UpdateInvitation st (plr_Bin p1) invitationId True False)
                      else st);
               p2 = (if groupId \<in> set (plr_GroupIds p1) then p1
                     else p1\<lparr>plr_GroupIds := plr_GroupIds p1 @ [groupId]\<rparr>)
           in case UpdatePlayer st1 (plr_Bin p2) [SetGroupIds (plr_GroupIds p2)] of
                (Some e, st2) \<Rightarrow> (Inl e, p2, st2)
              | (None, st2) \<Rightarrow>
                  (case GetByBin_game_groups st2 groupId of
                     (Inl e, st3) \<Rightarrow> (Inl e, p2, st3)
                   | (Inr g, st3) \<Rightarrow>
                       (case AddPlayerToGroupMembers st3 groupId (grp_Bin g) p2 of
                          (Some e, st4) \<Rightarrow> (Inl e, p2, st4)
                        | (None, st4) \<Rightarrow> (Inr True, p2, st4)))))"

text \<open>
  The loop of \<open>DeclineGameGroupInvitation\<close> also stops at the first invitation with the
  given bin, and sets its three fields whatever they were.
\<close>

fun decline_in_list :: "invitation list \<Rightarrow> string \<Rightarrow> invitation list" where
  "decline_in_list [] invitationId = []"
| "decline_in_list (iv # rest) invitationId =
     (if inv_Bin iv = invitationId then
        iv\<lparr>inv_Declined := True, inv_Accepted := False, inv_Status := ''declined''\<rparr> # rest
      else iv # decline_in_list rest invitationId)"

text \<open>
  The members of a group are keyed by bin, as \<open>src/unnamed/part_000\<close> has them: when
  some member has the player's bin, the entry under the player's bin is deleted.
  (\<open>src/store.go\<close> holds the members in a slice and cuts out the first one with the
  player's bin; the part on invitations is the same in both.)
\<close>

definition remove_member :: "(string \<times> player) list \<Rightarrow> string \<Rightarrow> (string \<times> player) list" where
  "remove_member members pBin =
     (if list_ex (\<lambda>(k, m). plr_Bin m = pBin) members then AList.delete pBin members
      else members)"

text \<open>\<open>DeclineGameGroupInvitation\<close> has no result; it returns silently on a failed call.\<close>

definition DeclineGameGroupInvitation ::
  "store \<Rightarrow> player \<Rightarrow> string \<Rightarrow> string \<Rightarrow> player \<times> store" where
  "DeclineGameGroupInvitation st p invitationId groupId =
     (let p1 = p\<lparr>plr_Invitations := decline_in_list (plr_Invitations p) invitationId\<rparr>
      in case UpdatePlayer st (plr_Bin p1) [SetInvitations (plr_Invitations p1)] of
           (Some e, st1) \<Rightarrow> (p1, st1)
         | (None, st1) \<Rightarrow>
             (case GetByBin_game_groups st1 groupId of
                (Inl e, st2) \<Rightarrow> (p1, st2)
              | (Inr g, st2) \<Rightarrow>
                  (let g' = g\<lparr>grp_Members := remove_member (grp_Members g) (plr_Bin p1)\<rparr>
                   in case UpdateGameGroup_members st2 groupId (grp_Members g') of
                        (r, st3) \<Rightarrow> (p1, st3))))"

text \<open>
  The invitation that \<open>AcceptGameInvitation\<close> and \<open>DeclineGameInvitation\<close> build for the
  player: the identifying fields of the one they were given, and fixed values for the
  rest.
\<close>

definition reply_invitation :: "invitation \<Rightarrow> string \<Rightarrow> bool \<Rightarrow> bool \<Rightarrow> invitation" where
  "reply_invitation invitation message accepted declined =
     \<lparr>inv_Bin = inv_Bin invitation, inv_GameGroup = inv_GameGroup invitation,
      inv_CreatorId = inv_CreatorId invitation, inv_Status = ''received'',
      inv_Invitation = ''game'', inv_Message = message, inv_Time = [],
      inv_GameId = inv_GameId invitation, inv_Accepted = accepted, inv_Declined = declined\<rparr>"

definition message_down :: string where
  "message_down = ''I'' @ [CHR 0x27] @ ''m down!''"

definition message_not_down :: string where
  "message_not_down = ''I'' @ [CHR 0x27] @ ''m not down!''"

text \<open>
  \<open>AcceptGameInvitation\<close> of \<open>src/store.go\<close> writes into the gamers map of the game it
  has just decoded; the map is nil when the game has no gamers, and the write panics.
  The fresh identifier of the gamer is an argument.
\<close>

definition AcceptGameInvitation ::
  "store \<Rightarrow> string \<Rightarrow> invitation \<Rightarrow> string \<Rightarrow> (error + bool) \<times> store" where
  "AcceptGameInvitation st playerId invitation uuid =
     (case GetByBin_games st (inv_GameId invitation) of
        (Inl e, st1) \<Rightarrow> (Inl e, st1)
      | (Inr g, st1) \<Rightarrow>
          (if game_Gamers g = [] then (Inl NilMapWrite, st1)
           else
             (let g' = g\<lparr>game_Gamers := AList.update playerId
                      \<lparr>gamer_Bin = uuid, gamer_GameId = inv_GameId invitation,
                       gamer_CharacterId = ''3'', gamer_IsAlive = True\<rparr> (game_Gamers g)\<rparr>
              in case UpdateGame st1 (inv_GameId invitation) [SetPlayers (game_Gamers g')] of
                   (Some e, st2) \<Rightarrow> (Inl e, st2)
                 | (None, st2) \<Rightarrow>
                     (case UpdatePlayer st2 playerId
                             [SetInvitations [reply_invitation invitation message_down True False]] of
                        (Some e, st3) \<Rightarrow> (Inl e, st3)
                      | (None, st3) \<Rightarrow> (Inr True, st3)))))"

definition DeclineGameInvitation ::
  "store \<Rightarrow> string \<Rightarrow> invitation \<Rightarrow> (error + bool) \<times> store" where
  "DeclineGameInvitation st playerId invitation =
     (case GetByBin_games st (inv_GameId invitation) of
        (Inl e, st1) \<Rightarrow> (Inl e, st1)
      | (Inr g, st1) \<Rightarrow>
          (let g' = g\<lparr>game_Invited := remove1 playerId (game_Invited g)\<rparr>
           in case UpdateGame st1 (inv_GameId invitation) [SetInvited (game_Invited g')] of
                (Some e, st2) \<Rightarrow> (Inl e, st2)
              | (None, st2) \<Rightarrow>
                  (case UpdatePlayer st2 playerId
                          [SetInvitations [reply_invitation invitation message_not_down False True]] of
                     (Some e, st3) \<Rightarrow> (Inl e, st3)
                   | (None, st3) \<Rightarrow> (Inr True, st3))))"

text \<open>The copies in \<open>src/unnamed/part_000\<close> update the player and leave the game alone.\<close>

definition AcceptGameInvitation_part_000 ::
  "store \<Rightarrow> string \<Rightarrow> invitation \<Rightarrow> (error + bool) \<times> store" where
  "AcceptGameInvitation_part_000 st playerId invitation =
     (case UpdatePlayer st playerId
             [SetInvitations [reply_invitation invitation message_down True False]] of
        (Some e, st1) \<Rightarrow> (Inl e, st1)
      | (None, st1) \<Rightarrow> (Inr True, st1))"

definition DeclineGameInvitation_part_000 ::
  "store \<Rightarrow> string \<Rightarrow> invitation \<Rightarrow> (error + bool) \<times> store" where
  "DeclineGameInvitation_part_000 st playerId invitation =
     (case UpdatePlayer st playerId
             [SetInvitations [reply_invitation invitation message_not_down False True]] of
        (Some e, st1) \<Rightarrow> (Inl e, st1)
      | (None, st1) \<Rightarrow> (Inr True, st1))"

text \<open>
  A run of accept and decline operations on one player, each with its invitation and
  group; an accept that fails leaves the player as the failed call left it.
\<close>

datatype invitation_op = Accept string string | Decline string string

fun apply_op :: "invitation_op \<Rightarrow> player \<times> store \<Rightarrow> player \<times> store" where
  "apply_op (Accept invitationId groupId) (p, st) =
     snd (AcceptGroupInvitation st p invitationId groupId)"
| "apply_op (Decline invitationId groupId) (p, st) =
     DeclineGameGroupInvitation st p invitationId groupId"

definition apply_ops :: "invitation_op list \<Rightarrow> player \<times> store \<Rightarrow> player \<times> store" where
  "apply_ops ops ps = fold apply_op ops ps"

definition exclusive :: "invitation \<Rightarrow> bool" where
  "exclusive iv = (\<not> (inv_Accepted iv \<and> inv_Declined iv))"

section \<open>Notions the properties are stated with\<close>

text \<open>The next \<open>n\<close> remote calls succeed.\<close>

definition calls_succeed :: "nat \<Rightarrow> store \<Rightarrow> bool" where
  "calls_succeed n st = list_all (\<lambda>f. \<not> f) (take n (faults st))"

text \<open>Whether the next remote call succeeds, and the store once that call is spent.\<close>

definition call_ok :: "store \<Rightarrow> bool" where
  "call_ok st = (case faults st of [] \<Rightarrow> True | f # fs \<Rightarrow> \<not> f)"

definition after_call :: "store \<Rightarrow> store" where
  "after_call st = st\<lparr>faults := tl (faults st)\<rparr>"

text \<open>The results a game holds for a gamer under a step, in memory and in the store.\<close>

definition results_of :: "game \<Rightarrow> string \<Rightarrow> string \<Rightarrow> result list" where
  "results_of g stepKey gamer =
     (case map_of (game_Steps g) stepKey of
        None \<Rightarrow> []
      | Some s \<Rightarrow> lookup_list (step_Result s) gamer)"

definition stored_results :: "store \<Rightarrow> string \<Rightarrow> string \<Rightarrow> string \<Rightarrow> result list" where
  "stored_results st gameBin stepKey gamer =
     (case db_games st gameBin of None \<Rightarrow> [] | Some g \<Rightarrow> results_of g stepKey gamer)"

text \<open>
  Every result held in the result map of a step, and in the result maps of all steps, in
  the order the loops of \<open>ArchiveStepResults\<close> visit them.
\<close>

definition step_results :: "step \<Rightarrow> result list" where
  "step_results s = concat (map snd (step_Result s))"

definition all_results :: "(string \<times> step) list \<Rightarrow> result list" where
  "all_results steps = concat (map (\<lambda>(k, s). step_results s) steps)"

text \<open>The archived results and the steps of a stored game.\<close>

definition archived :: "store \<Rightarrow> string \<Rightarrow> (string \<times> result list) list" where
  "archived st gameId = (case db_games st gameId of None \<Rightarrow> [] | Some g \<Rightarrow> game_StepResults g)"

definition stored_steps :: "store \<Rightarrow> string \<Rightarrow> (string \<times> step) list" where
  "stored_steps st gameId = (case db_games st gameId of None \<Rightarrow> [] | Some g \<Rightarrow> game_Steps g)"

text \<open>\<open>n\<close> calls of \<open>ArchiveStepResults\<close> in a row, whatever each returns.\<close>

fun archive_times :: "nat \<Rightarrow> store \<Rightarrow> string \<Rightarrow> store" where
  "archive_times 0 st gameId = st"
| "archive_times (Suc n) st gameId = archive_times n (snd (ArchiveStepResults st gameId)) gameId"

text \<open>The members a stored group has, and the invitations stored for a player.\<close>

definition stored_members :: "store \<Rightarrow> string \<Rightarrow> (string \<times> player) list" where
  "stored_members st groupId =
     (case db_game_groups st groupId of None \<Rightarrow> [] | Some g \<Rightarrow> grp_Members g)"

definition stored_invitations :: "store \<Rightarrow> string \<Rightarrow> (string \<times> invitation) list" where
  "stored_invitations st playerId = node_invitations (db_players st playerId)"

text \<open>No invitation stored for any player is both accepted and declined.\<close>

definition stored_exclusive :: "store \<Rightarrow> bool" where
  "stored_exclusive st = (\<forall>k. list_all exclusive (map snd (stored_invitations st k)))"

section \<open>Concrete stores and entities\<close>

definition online :: store where
  "online = \<lparr>db_players = (\<lambda>k. \<lparr>node_invitations = [], node_group_ids = []\<rparr>),
     db_game_groups = Map.empty, db_games = Map.empty, db_game_players = Map.empty,
     db_steps = Map.empty, faults = [], mu_locked = False\<rparr>"

definition new_step :: "string \<Rightarrow> string \<Rightarrow> step" where
  "new_step b d = zero_step\<lparr>step_Bin := b, step_Duration := d\<rparr>"

definition three_steps :: "step list" where
  "three_steps = [new_step ''a'' ''30'', new_step ''b'' ''45'', new_step ''c'' ''10'']"

definition vote1 :: vote where
  "vote1 = \<lparr>vote_GameBin = ''g1'', vote_Source = ''p1'', vote_StepBin = ''s1'',
     vote_Choice = ''p2''\<rparr>"

definition result1 :: result where
  "result1 = \<lparr>res_Bin = ''r1'', res_StepBin = ''s1'', res_GameBin = ''g1'',
     res_GamerId = ''p1'', res_TimeStamp = ''1000'', res_Vote = vote1\<rparr>"

definition game1 :: game where
  "game1 = zero_game\<lparr>game_Bin := ''g1'', game_CurrentStep := ''s1'',
     game_Steps := [(''s1'', new_step ''s1'' ''30'')]\<rparr>"

definition game_voted :: game where
  "game_voted = zero_game\<lparr>game_Bin := ''g1'', game_CurrentStep := ''s1'',
     game_Steps := [(''s1'', (new_step ''s1'' ''30'')\<lparr>step_Result := [(''p1'', [result1])]\<rparr>)]\<rparr>"

definition store_with_game :: "game \<Rightarrow> store" where
  "store_with_game g = online\<lparr>db_games := [game_Bin g \<mapsto> g]\<rparr>"

definition invitation_to :: "string \<Rightarrow> invitation" where
  "invitation_to b = zero_invitation\<lparr>inv_Bin := b, inv_GameGroup := ''grp1'',
     inv_CreatorId := ''p1'', inv_Status := ''received'', inv_Invitation := ''group'',
     inv_GameId := ''g1''\<rparr>"

definition player_with :: "string \<Rightarrow> invitation list \<Rightarrow> player" where
  "player_with b invs = \<lparr>plr_Bin = b, plr_UserName = [], plr_Status = ''available'',
     plr_Photo = [], plr_Privacy = ''public'', plr_Invitations = invs, plr_GroupIds = []\<rparr>"

definition group1 :: group where
  "group1 = zero_group\<lparr>grp_Bin := ''grp1'', grp_Capacity := 3, grp_Status := ''waiting''\<rparr>"

definition store_with_group :: "group \<Rightarrow> store" where
  "store_with_group g = online\<lparr>db_game_groups := [grp_Bin g \<mapsto> g]\<rparr>"

definition game_at_step_1 :: game where
  "game_at_step_1 = zero_game\<lparr>game_Bin := ''g1'', game_CurrentStep := ''1''\<rparr>"

definition store_with_steps :: store where
  "store_with_steps = online\<lparr>db_games := [''g1'' \<mapsto> game_at_step_1],
     db_steps := [''1'' \<mapsto> (new_step ''1'' ''30'')\<lparr>step_NextStep := ''2''\<rparr>,
                  ''2'' \<mapsto> new_step ''2'' ''45'']\<rparr>"

definition game_with_gamer :: game where
  "game_with_gamer = zero_game\<lparr>game_Bin := ''g1'', game_Invited := [''p2'', ''p3''],
     game_Gamers := [(''p1'', \<lparr>gamer_Bin = ''gm1'', gamer_GameId = ''g1'',
                               gamer_CharacterId = ''1'', gamer_IsAlive = True\<rparr>)]\<rparr>"

definition store_with_invitations :: store where
  "store_with_invitations = online\<lparr>db_games := [''g1'' \<mapsto> game_with_gamer],
     db_players := (db_players online)(''p2'' :=
       \<lparr>node_invitations = [(''i1'', invitation_to ''i1''), (''i2'', invitation_to ''i2'')],
        node_group_ids = []\<rparr>)\<rparr>"

section \<open>Facts about the runtime and the remote calls\<close>

lemma wrap64_id:
  "- 9223372036854775808 \<le> x \<Longrightarrow> x < 9223372036854775808 \<Longrightarrow> wrap64 x = x"
  by (simp add: wrap64_def)

lemma remote_call_ok:
  "calls_succeed (Suc n) st \<Longrightarrow> remote_call st = (True, st\<lparr>faults := tl (faults st)\<rparr>)"
  by (cases "faults st") (simp_all add: remote_call_def calls_succeed_def)

lemma calls_succeed_tl:
  "calls_succeed (Suc n) st \<Longrightarrow> calls_succeed n (st\<lparr>faults := tl (faults st)\<rparr>)"
  by (cases "faults st") (simp_all add: calls_succeed_def)

lemma calls_succeed_mu [simp]: "calls_succeed n (st\<lparr>mu_locked := b\<rparr>) = calls_succeed n st"
  by (simp add: calls_succeed_def)

lemma calls_succeed_online [simp]: "calls_succeed n (store_with_game g)"
  by (simp add: calls_succeed_def store_with_game_def online_def)

lemma remote_call_no_fault: "faults st = [] \<Longrightarrow> remote_call st = (True, st)"
  by (simp add: remote_call_def)

lemma remote_call_eq: "remote_call st = (call_ok st, after_call st)"
  by (cases "faults st") (simp_all add: remote_call_def call_ok_def after_call_def)

lemma after_call_fields [simp]:
  "db_games (after_call st) = db_games st"
  "db_players (after_call st) = db_players st"
  "db_game_groups (after_call st) = db_game_groups st"
  "db_game_players (after_call st) = db_game_players st"
  "db_steps (after_call st) = db_steps st"
  "mu_locked (after_call st) = mu_locked st"
  by (simp_all add: after_call_def)

lemma lookup_list_update_if:
  "lookup_list (AList.update k' v m) k = (if k = k' then v else lookup_list m k)"
  by (simp add: lookup_list_def update_conv')

section \<open>Scheduling: what the loop writes\<close>

lemma schedule_times:
  "end_time ''1000'' ''30'' = ''31500''"
  "start_after ''31500'' = ''32000''"
  "end_time ''32000'' ''45'' = ''77500''"
  "end_time ''32000'' ''10'' = ''42500''"
  "start_after ''77500'' = ''78000''"
  by (simp_all add: end_time_def start_after_def Atoi_def digit_of_def add64_def mul64_def
      wrap64_def Itoa_def nat_digits.simps digit_char_def)

text \<open>
  C1 (the claim fails on the code). Three steps of 30, 45 and 10 seconds are scheduled
  from start time 1000. The indices are the positions, the first step starts at 1000,
  and every end time is the start time plus the duration plus the buffer; the second
  step starts 500 after the first one ends. The third step, though, starts at 32000,
  which is 500 after the end of the first step: the second step ends at 77500, so the
  claim has the third step start at 78000.
\<close>

theorem AddAllStepsToDb_third_step_starts_after_first:
  "(case AddAllStepsToDb online three_steps ''1000'' of
      (r, objs, st) \<Rightarrow>
        (map step_StepIndex objs, map step_StartTime objs, map step_EndTime objs,
         start_after (step_EndTime (objs ! 1)))) =
   ([0, 1, 2], [''1000'', ''32000'', ''32000''], [''31500'', ''77500'', ''42500''], ''78000'')"
  by (simp add: AddAllStepsToDb_def set_indices_def CreateStep_def remote_call_def online_def
      three_steps_def new_step_def zero_step_def Let_def schedule_times)

lemma add_steps_loop_later:
  assumes "add_steps_loop startTime lastEndTime (Suc i) steps st = (None, objs, st')"
  shows "map step_StepIndex objs = map (\<lambda>(j, s). int j) (enumerate (Suc i) steps)
       \<and> map step_StartTime objs = replicate (length steps) (start_after lastEndTime)
       \<and> map step_EndTime objs =
           map (\<lambda>s. end_time (start_after lastEndTime) (step_Duration s)) steps"
  using assms
proof (induction steps arbitrary: i st objs st')
  case Nil
  then show ?case by simp
next
  case (Cons s rest)
  let ?s3 = "s\<lparr>step_StepIndex := int (Suc i), step_StartTime := start_after lastEndTime,
                 step_EndTime := end_time (start_after lastEndTime) (step_Duration s)\<rparr>"
  obtain e st1 where c: "CreateStep st ?s3 = (e, st1)" by (cases "CreateStep st ?s3")
  show ?case
  proof (cases e)
    case (Some err)
    with Cons.prems c show ?thesis by (simp add: Let_def)
  next
    case None
    obtain r rest' st2 where rec:
      "add_steps_loop startTime lastEndTime (Suc (Suc i)) rest st1 = (r, rest', st2)"
      by (cases "add_steps_loop startTime lastEndTime (Suc (Suc i)) rest st1")
    with Cons.prems c None have r: "r = None" and objs: "objs = ?s3 # rest'"
      by (simp_all add: Let_def)
    from Cons.IH [of "Suc i" st1 rest' st2] rec r objs show ?thesis
      by simp
  qed
qed

lemma enumerate_durations:
  "map step_Duration (map (\<lambda>(i, s). s\<lparr>step_StepIndex := int i\<rparr>) (enumerate n steps)) =
     map step_Duration steps"
  by (induction steps arbitrary: n) simp_all

lemma set_indices_durations: "map step_Duration (set_indices steps) = map step_Duration steps"
  unfolding set_indices_def by (rule enumerate_durations)

lemma set_indices_Cons:
  "set_indices (s # rest) =
     s\<lparr>step_StepIndex := 0\<rparr> # map (\<lambda>(i, s). s\<lparr>step_StepIndex := int i\<rparr>) (enumerate (Suc 0) rest)"
  by (simp add: set_indices_def)

text \<open>
  What \<open>AddAllStepsToDb\<close> does in general when it returns a list: the indices are the
  positions, the first step starts at the start time, every step ends at its start time
  plus duration plus buffer, and every later step starts 500 after the end of the first
  step.
\<close>

theorem AddAllStepsToDb_schedule:
  assumes "AddAllStepsToDb st (s # rest) startTime = (Inr (Some returned), objs, st')"
  shows "returned = objs @ objs
       \<and> map step_StepIndex objs = map (\<lambda>(j, s). int j) (enumerate 0 (s # rest))
       \<and> map step_StartTime objs =
           startTime # replicate (length rest) (start_after (end_time startTime (step_Duration s)))
       \<and> map step_EndTime objs =
           map2 end_time (map step_StartTime objs) (map step_Duration (s # rest))"
proof -
  let ?rest0 = "map (\<lambda>(i, s). s\<lparr>step_StepIndex := int i\<rparr>) (enumerate (Suc 0) rest)"
  let ?s2 = "s\<lparr>step_StepIndex := 0, step_StartTime := startTime,
                step_EndTime := end_time startTime (step_Duration s)\<rparr>"
  obtain r objs0 st0 where loop:
    "add_steps_loop startTime [] 0 (set_indices (s # rest)) st = (r, objs0, st0)"
    by (cases "add_steps_loop startTime [] 0 (set_indices (s # rest)) st")
  with assms have r: "r = None" and o: "objs0 = objs" and ret: "returned = objs @ objs"
    by (auto simp: AddAllStepsToDb_def split: option.splits error.splits)
  obtain e st1 where c: "CreateStep st ?s2 = (e, st1)" by (cases "CreateStep st ?s2")
  show ?thesis
  proof (cases e)
    case (Some err)
    with loop r c show ?thesis by (simp add: set_indices_Cons Let_def)
  next
    case None
    obtain r' rest' st2 where rec:
      "add_steps_loop startTime (end_time startTime (step_Duration s)) (Suc 0) ?rest0 st1 =
         (r', rest', st2)"
      by (cases "add_steps_loop startTime (end_time startTime (step_Duration s)) (Suc 0) ?rest0 st1")
    with loop r o c None have r': "r' = None" and objs: "objs = ?s2 # rest'"
      by (simp_all add: set_indices_Cons Let_def)
    from add_steps_loop_later [OF rec [unfolded r']]
    have "map step_StepIndex rest' = map (\<lambda>(j, s). int j) (enumerate (Suc 0) ?rest0)"
      and "map step_StartTime rest' =
             replicate (length ?rest0) (start_after (end_time startTime (step_Duration s)))"
      and "map step_EndTime rest' =
             map (\<lambda>x. end_time (start_after (end_time startTime (step_Duration s))) (step_Duration x)) ?rest0"
      by simp_all
    moreover have "map (\<lambda>(j, s). int j) (enumerate n (map (\<lambda>(i, s). s\<lparr>step_StepIndex := int i\<rparr>) (enumerate m xs))) =
        map (\<lambda>(j, s). int j) (enumerate n xs)" for n m and xs :: "step list"
      by (induction xs arbitrary: n m) simp_all
    moreover have "map (\<lambda>x. end_time t (step_Duration x)) (map (\<lambda>(i, s). s\<lparr>step_StepIndex := int i\<rparr>) (enumerate m xs)) =
        map2 end_time (replicate (length xs) t) (map step_Duration xs)" for t m and xs :: "step list"
      by (induction xs arbitrary: m) simp_all
    ultimately show ?thesis using objs ret by simp
  qed
qed

text \<open>With the mutex free and no failing call, the function does return a list.\<close>

lemma CreateStep_no_fault:
  "\<not> mu_locked st \<Longrightarrow> faults st = [] \<Longrightarrow>
   CreateStep st b = (None, st\<lparr>db_steps := (db_steps st)(step_Bin b \<mapsto> b), mu_locked := False\<rparr>)"
  by (simp add: CreateStep_def remote_call_no_fault)

lemma add_steps_loop_returns:
  "\<not> mu_locked st \<Longrightarrow> faults st = [] \<Longrightarrow>
   fst (add_steps_loop startTime lastEndTime i steps st) = None"
proof (induction steps arbitrary: i st lastEndTime)
  case Nil
  show ?case by simp
next
  case (Cons s rest)
  show ?case
  proof (cases "i = 0")
    case True
    with Cons.prems show ?thesis
      by (simp add: Let_def CreateStep_no_fault case_prod_beta Cons.IH)
  next
    case False
    with Cons.prems show ?thesis
      by (simp add: Let_def CreateStep_no_fault case_prod_beta Cons.IH)
  qed
qed

lemma AddAllStepsToDb_returns:
  assumes "\<not> mu_locked st" and "faults st = []"
  shows "\<exists>objs. fst (AddAllStepsToDb st steps startTime) = Inr (Some (objs @ objs))"
proof -
  obtain r objs st' where l: "add_steps_loop startTime [] 0 (set_indices steps) st = (r, objs, st')"
    by (cases "add_steps_loop startTime [] 0 (set_indices steps) st")
  with add_steps_loop_returns [OF assms, of startTime "[]" 0 "set_indices steps"]
  have "r = None" by simp
  with l show ?thesis by (auto simp: AddAllStepsToDb_def)
qed

section \<open>Votes\<close>

lemma lookup_list_update [simp]: "lookup_list (AList.update k v m) k = v"
  by (simp add: lookup_list_def update_conv')

lemma buildStepResult_appends:
  assumes "map_of (game_Steps g) (game_CurrentStep g) = Some cur"
  shows "\<exists>g'. buildStepResult g gamer v stamp uuid =
           Inr (g', SetStepResult (game_CurrentStep g) gamer
                  (results_of g (game_CurrentStep g) gamer @
                    [\<lparr>res_Bin = uuid, res_StepBin = vote_StepBin v, res_GameBin = game_Bin g,
                      res_GamerId = gamer, res_TimeStamp = stamp, res_Vote = v\<rparr>]))
         \<and> game_Bin g' = game_Bin g
         \<and> results_of g' (game_CurrentStep g) gamer =
             results_of g (game_CurrentStep g) gamer @
               [\<lparr>res_Bin = uuid, res_StepBin = vote_StepBin v, res_GameBin = game_Bin g,
                 res_GamerId = gamer, res_TimeStamp = stamp, res_Vote = v\<rparr>]"
  using assms by (simp add: buildStepResult_def results_of_def Let_def update_conv')

lemma apply_SetStepResult:
  assumes "map_of (game_Steps g) k = Some cur"
  shows "results_of (apply_game_update (SetStepResult k gamer rs) g) k gamer = rs"
  using assms by (simp add: results_of_def Let_def update_conv')

text \<open>
  C2. A vote for a stored game that has its current step, cast while the mutex is free
  and the two remote calls succeed, is recorded: \<open>Vote\<close> returns true, and the list
  stored for the voting gamer under the current step is the old list followed by one
  new result, whose step bin is the vote's, whose game bin is the game's and whose gamer
  id is the source of the vote. No entry of the old list is changed or dropped.
\<close>

theorem Vote_appends_one_result:
  assumes free: "\<not> mu_locked st" and ok: "calls_succeed 2 st"
    and game: "db_games st (vote_GameBin v) = Some g" and bin: "game_Bin g = vote_GameBin v"
    and cur: "map_of (game_Steps g) (game_CurrentStep g) = Some c"
  shows "\<exists>st'. Vote st v stamp uuid = (Inr True, st')
           \<and> stored_results st' (vote_GameBin v) (game_CurrentStep g) (vote_Source v) =
               stored_results st (vote_GameBin v) (game_CurrentStep g) (vote_Source v) @
                 [\<lparr>res_Bin = uuid, res_StepBin = vote_StepBin v, res_GameBin = vote_GameBin v,
                   res_GamerId = vote_Source v, res_TimeStamp = stamp, res_Vote = v\<rparr>]"
proof -
  let ?st0 = "st\<lparr>mu_locked := True\<rparr>"
  let ?st1 = "?st0\<lparr>faults := tl (faults ?st0)\<rparr>"
  have ok0: "calls_succeed (Suc (Suc 0)) ?st0" using ok by (simp add: numeral_2_eq_2)
  have get: "getGameByBin ?st0 (vote_GameBin v) = (Inr (Some g), ?st1)"
    using remote_call_ok [OF ok0] game by (simp add: getGameByBin_def)
  have ok1: "calls_succeed (Suc 0) ?st1" using calls_succeed_tl [OF ok0] .
  obtain g' where b: "buildStepResult g (vote_Source v) v stamp uuid =
      Inr (g', SetStepResult (game_CurrentStep g) (vote_Source v)
                  (results_of g (game_CurrentStep g) (vote_Source v) @
                    [\<lparr>res_Bin = uuid, res_StepBin = vote_StepBin v, res_GameBin = game_Bin g,
                      res_GamerId = vote_Source v, res_TimeStamp = stamp, res_Vote = v\<rparr>]))"
    and gb: "game_Bin g' = game_Bin g"
    using buildStepResult_appends [OF cur] by blast
  have g1: "db_games ?st1 (vote_GameBin v) = Some g" using game by simp
  show ?thesis
    unfolding Vote_def
    using free get b gb bin g1 remote_call_ok [OF ok1] apply_SetStepResult [OF cur]
    by (simp add: UpdateGame_def stored_results_def)
qed

theorem Vote_appends_one_result_witness:
  "\<exists>st'. Vote (store_with_game game1) vote1 ''1000'' ''r1'' = (Inr True, st')
     \<and> stored_results st' ''g1'' ''s1'' ''p1'' = [result1]"
proof -
  have h1: "\<not> mu_locked (store_with_game game1)"
    by (simp add: store_with_game_def online_def)
  have h2: "calls_succeed 2 (store_with_game game1)" by simp
  have h3: "db_games (store_with_game game1) (vote_GameBin vote1) = Some game1"
    by (simp add: store_with_game_def game1_def vote1_def)
  have h4: "game_Bin game1 = vote_GameBin vote1" by (simp add: game1_def vote1_def)
  have h5: "map_of (game_Steps game1) (game_CurrentStep game1) = Some (new_step ''s1'' ''30'')"
    by (simp add: game1_def)
  have cur: "game_CurrentStep game1 = ''s1''" by (simp add: game1_def)
  have old: "stored_results (store_with_game game1) ''g1'' ''s1'' ''p1'' = []"
    by (simp add: stored_results_def store_with_game_def game1_def results_of_def
        new_step_def zero_step_def lookup_list_def)
  show ?thesis
    using Vote_appends_one_result [OF h1 h2 h3 h4 h5, of "''1000''" "''r1''"] old cur
    by (simp add: vote1_def result1_def)
qed

section \<open>Archival: the loops\<close>

lemma archive_results_lookup:
  "lookup_list (archive_results rs sr) k = lookup_list sr k @ filter (\<lambda>r. res_GamerId r = k) rs"
  by (induction rs arbitrary: sr) (auto simp: lookup_list_update_if)

lemma archive_result_map_lookup:
  "lookup_list (archive_result_map m sr) k =
     lookup_list sr k @ filter (\<lambda>r. res_GamerId r = k) (concat (map snd m))"
  by (induction m sr rule: archive_result_map.induct) (simp_all add: archive_results_lookup)

lemma archive_steps_lookup:
  "lookup_list (snd (archive_steps steps sr)) k =
     lookup_list sr k @ filter (\<lambda>r. res_GamerId r = k) (all_results steps)"
proof (induction steps sr rule: archive_steps.induct)
  case (1 sr)
  show ?case by (simp add: all_results_def)
next
  case (2 key step rest sr)
  show ?case
  proof (cases "step_Result step = []")
    case True
    with 2 show ?thesis
      by (simp add: all_results_def step_results_def case_prod_beta)
  next
    case False
    with 2 show ?thesis
      by (simp add: all_results_def step_results_def archive_result_map_lookup case_prod_beta)
  qed
qed

lemma archive_steps_keys: "map fst (fst (archive_steps steps sr)) = map fst steps"
  by (induction steps sr rule: archive_steps.induct) (simp_all add: case_prod_beta)

lemma clear_results_cleared: "list_all (\<lambda>(k, s). step_Result s = []) (clear_results steps)"
  by (induction steps) (auto simp: clear_results_def)

lemma clear_results_keys: "map fst (clear_results steps) = map fst steps"
  by (induction steps) (auto simp: clear_results_def)

lemma clear_results_id:
  "list_all (\<lambda>(k, s). step_Result s = []) steps \<Longrightarrow> clear_results steps = steps"
  by (induction steps) (auto simp: clear_results_def)

lemma archive_steps_cleared:
  "list_all (\<lambda>(k, s). step_Result s = []) steps \<Longrightarrow> archive_steps steps sr = (steps, sr)"
  by (induction steps arbitrary: sr) auto

lemma archive_game_lookup:
  "lookup_list (game_StepResults (archive_game g)) k =
     lookup_list (game_StepResults g) k @
       filter (\<lambda>r. res_GamerId r = k) (all_results (game_Steps g))"
  using archive_steps_lookup [of "game_Steps g" "game_StepResults g" k]
  by (simp add: archive_game_def case_prod_beta)

lemma archive_game_cleared:
  "list_all (\<lambda>(k, s). step_Result s = []) (game_Steps (archive_game g))"
  by (simp add: archive_game_def clear_results_cleared case_prod_beta)

lemma archive_game_keys: "map fst (game_Steps (archive_game g)) = map fst (game_Steps g)"
  using archive_steps_keys [of "game_Steps g" "game_StepResults g"]
  by (simp add: archive_game_def clear_results_keys case_prod_beta)

lemma archive_game_fixed:
  "list_all (\<lambda>(k, s). step_Result s = []) (game_Steps g) \<Longrightarrow> archive_game g = g"
  by (simp add: archive_game_def archive_steps_cleared clear_results_id)

section \<open>Archival: the stored game\<close>

lemma archive_game_zero [simp]: "archive_game zero_game = zero_game"
  by (simp add: archive_game_def zero_game_def clear_results_def)

lemma zero_game_empty [simp]: "game_Steps zero_game = []" "game_StepResults zero_game = []"
  by (simp_all add: zero_game_def)

lemma archive_game_fields:
  "g\<lparr>game_Steps := game_Steps (archive_game g),
     game_StepResults := game_StepResults (archive_game g)\<rparr> = archive_game g"
  by (simp add: archive_game_def case_prod_beta)

lemma ArchiveStepResults_store:
  "db_games (snd (ArchiveStepResults st gameId)) =
     (if fst (ArchiveStepResults st gameId) = None
      then (case db_games st gameId of
              None \<Rightarrow> db_games st
            | Some g \<Rightarrow> (db_games st)(gameId \<mapsto> archive_game g))
      else db_games st)"
  by (cases "call_ok st"; cases "call_ok (after_call st)"; cases "db_games st gameId")
     (simp_all add: ArchiveStepResults_def GetByBin_games_def UpdateGame_def remote_call_eq
        archive_game_fields Let_def)

lemma ArchiveStepResults_result:
  "fst (ArchiveStepResults st gameId) = None \<longleftrightarrow> call_ok st \<and> call_ok (after_call st)"
  by (cases "call_ok st"; cases "call_ok (after_call st)")
     (simp_all add: ArchiveStepResults_def GetByBin_games_def UpdateGame_def remote_call_eq Let_def)

lemma archived_after_archive:
  "lookup_list (archived (snd (ArchiveStepResults st gameId)) gameId) k =
     (if fst (ArchiveStepResults st gameId) = None
      then lookup_list (archived st gameId) k @
             filter (\<lambda>r. res_GamerId r = k) (all_results (stored_steps st gameId))
      else lookup_list (archived st gameId) k)"
  by (cases "db_games st gameId")
     (simp_all add: archived_def stored_steps_def ArchiveStepResults_store archive_game_lookup
        all_results_def)

lemma stored_steps_after_archive:
  "fst (ArchiveStepResults st gameId) = None \<Longrightarrow>
   list_all (\<lambda>(k, s). step_Result s = []) (stored_steps (snd (ArchiveStepResults st gameId)) gameId)"
  by (cases "db_games st gameId")
     (simp_all add: stored_steps_def ArchiveStepResults_store archive_game_cleared)

lemma archive_again:
  assumes "fst (ArchiveStepResults st gameId) = None"
  shows "db_games (snd (ArchiveStepResults (snd (ArchiveStepResults st gameId)) gameId)) =
         db_games (snd (ArchiveStepResults st gameId))"
proof -
  let ?st1 = "snd (ArchiveStepResults st gameId)"
  have cleared: "list_all (\<lambda>(k, s). step_Result s = []) (stored_steps ?st1 gameId)"
    using stored_steps_after_archive [OF assms] .
  show ?thesis
  proof (cases "db_games ?st1 gameId")
    case None
    then show ?thesis by (simp add: ArchiveStepResults_store [of ?st1])
  next
    case (Some g1)
    with cleared have "archive_game g1 = g1"
      by (simp add: stored_steps_def archive_game_fixed)
    with Some show ?thesis
      by (auto simp: ArchiveStepResults_store [of ?st1])
  qed
qed

lemma archive_times_mono:
  "length (lookup_list (archived st gameId) k) \<le>
   length (lookup_list (archived (archive_times n st gameId) gameId) k)"
proof (induction n arbitrary: st)
  case 0
  show ?case by simp
next
  case (Suc n)
  have "length (lookup_list (archived st gameId) k) \<le>
        length (lookup_list (archived (snd (ArchiveStepResults st gameId)) gameId) k)"
    by (simp add: archived_after_archive)
  also have "\<dots> \<le> length (lookup_list
      (archived (archive_times n (snd (ArchiveStepResults st gameId)) gameId) gameId) k)"
    by (rule Suc.IH)
  finally show ?case by simp
qed

text \<open>
  C4. Archival is idempotent and monotone. When a call of \<open>ArchiveStepResults\<close> has
  succeeded, a second call on the store it left (no vote in between), whatever that call
  returns, leaves the archived results of the game as they were. And for every gamer
  the number of archived results after any number of calls in a row, failed ones
  included, is at least the number before.
\<close>

theorem ArchiveStepResults_idempotent_monotone:
  "(fst (ArchiveStepResults st gameId) = None \<longrightarrow>
      archived (snd (ArchiveStepResults (snd (ArchiveStepResults st gameId)) gameId)) gameId =
      archived (snd (ArchiveStepResults st gameId)) gameId)
   \<and> length (lookup_list (archived st gameId) gamer) \<le>
       length (lookup_list (archived (archive_times n st gameId) gameId) gamer)"
  using archive_again [of st gameId] archive_times_mono [of st gameId gamer n]
  by (simp add: archived_def)

lemma game_voted_facts:
  "db_games (store_with_game game_voted) ''g1'' = Some game_voted"
  "call_ok (store_with_game g)" "after_call (store_with_game g) = store_with_game g"
  by (simp_all add: store_with_game_def game_voted_def zero_game_def online_def call_ok_def
      after_call_def)

lemma archive_game_voted:
  "archive_game game_voted = game_voted\<lparr>game_Steps := [(''s1'', new_step ''s1'' ''30'')],
     game_StepResults := [(''p1'', [result1])]\<rparr>"
  by (simp add: archive_game_def game_voted_def zero_game_def new_step_def zero_step_def
      clear_results_def result1_def lookup_list_def)

theorem ArchiveStepResults_idempotent_monotone_witness:
  "fst (ArchiveStepResults (store_with_game game_voted) ''g1'') = None
   \<and> archived (snd (ArchiveStepResults (store_with_game game_voted) ''g1'')) ''g1'' =
       [(''p1'', [result1])]
   \<and> archived (snd (ArchiveStepResults
        (snd (ArchiveStepResults (store_with_game game_voted) ''g1'')) ''g1'')) ''g1'' =
       [(''p1'', [result1])]
   \<and> length (lookup_list (archived (store_with_game game_voted) ''g1'') ''p1'') \<le>
       length (lookup_list (archived
         (archive_times 2 (store_with_game game_voted) ''g1'') ''g1'') ''p1'')"
proof -
  have ok: "fst (ArchiveStepResults (store_with_game game_voted) ''g1'') = None"
    by (simp add: ArchiveStepResults_result game_voted_facts)
  have first: "archived (snd (ArchiveStepResults (store_with_game game_voted) ''g1'')) ''g1'' =
       [(''p1'', [result1])]"
    by (simp add: archived_def ArchiveStepResults_store ok game_voted_facts archive_game_voted)
  show ?thesis
    using ArchiveStepResults_idempotent_monotone
      [of "store_with_game game_voted" "''g1''" "''p1''" 2] ok first
    by simp
qed

text \<open>
  \<open>ArchiveStepResults\<close> of \<open>src/store.go\<close> moves the results: after a call that succeeds, the archived
  list of every gamer is the list archived before, followed by the results that the
  steps held with that gamer's id, and no step holds a result any more.
\<close>

theorem ArchiveStepResults_moves_results:
  assumes "fst (ArchiveStepResults st gameId) = None"
  shows "lookup_list (archived (snd (ArchiveStepResults st gameId)) gameId) gamer =
           lookup_list (archived st gameId) gamer @
             filter (\<lambda>r. res_GamerId r = gamer) (all_results (stored_steps st gameId))
         \<and> all_results (stored_steps (snd (ArchiveStepResults st gameId)) gameId) = []"
proof -
  have "list_all (\<lambda>(k, s). step_Result s = [])
          (stored_steps (snd (ArchiveStepResults st gameId)) gameId)"
    using stored_steps_after_archive [OF assms] .
  then have "all_results (stored_steps (snd (ArchiveStepResults st gameId)) gameId) = []"
    by (induction "stored_steps (snd (ArchiveStepResults st gameId)) gameId")
       (auto simp: all_results_def step_results_def list_all_iff)
  then show ?thesis using assms by (simp add: archived_after_archive)
qed

section \<open>Archival in the copy of part_000\<close>

lemma archive_steps_part_000_keeps: "archive_steps_part_000 steps sr = sr"
proof -
  have a: "archive_results_part_000 rs sr' = sr'" for rs sr'
    by (induction rs) (simp_all add: Let_def)
  have b: "archive_result_map_part_000 m sr' = sr'" for m sr'
    by (induction m sr' rule: archive_result_map_part_000.induct) (simp_all add: a)
  show ?thesis
    by (induction steps sr rule: archive_steps_part_000.induct) (simp_all add: b)
qed

lemma ArchiveStepResults_part_000_store:
  "db_games (snd (ArchiveStepResults_part_000 st gameId)) =
     (if fst (ArchiveStepResults_part_000 st gameId) = None
      then (case db_games st gameId of
              None \<Rightarrow> db_games st
            | Some g \<Rightarrow> (db_games st)(gameId \<mapsto> g\<lparr>game_Steps := clear_results (game_Steps g)\<rparr>))
      else db_games st)"
  by (cases "call_ok st"; cases "call_ok (after_call st)"; cases "db_games st gameId")
     (simp_all add: ArchiveStepResults_part_000_def GetByBin_games_def UpdateGame_def
        remote_call_eq archive_game_part_000_def archive_steps_part_000_keeps Let_def
        clear_results_def)

lemma ArchiveStepResults_part_000_archives_nothing:
  "archived (snd (ArchiveStepResults_part_000 st gameId)) gameId = archived st gameId"
  by (cases "db_games st gameId")
     (simp_all add: archived_def ArchiveStepResults_part_000_store)

lemma ArchiveStepResults_part_000_result:
  "fst (ArchiveStepResults_part_000 st gameId) = None \<longleftrightarrow> call_ok st \<and> call_ok (after_call st)"
  by (cases "call_ok st"; cases "call_ok (after_call st)")
     (simp_all add: ArchiveStepResults_part_000_def GetByBin_games_def UpdateGame_def
        remote_call_eq Let_def)

lemma game_voted_results:
  "all_results (game_Steps game_voted) = [result1]"
  "game_StepResults game_voted = []"
  "all_results (clear_results (game_Steps game_voted)) = []"
  by (simp_all add: game_voted_def zero_game_def all_results_def step_results_def
      clear_results_def)

text \<open>
  C3 (the claim fails on the copy in \<open>src/unnamed/part_000\<close>). A stored game holds one
  result, of gamer p1, in the result map of its step s1, and has archived nothing yet.
  \<open>ArchiveStepResults\<close> of that copy succeeds; afterwards no step holds a result and the
  archive is still empty, so the result is in neither place.
\<close>

theorem ArchiveStepResults_part_000_loses_results:
  "all_results (stored_steps (store_with_game game_voted) ''g1'') = [result1]
   \<and> fst (ArchiveStepResults_part_000 (store_with_game game_voted) ''g1'') = None
   \<and> all_results
        (stored_steps (snd (ArchiveStepResults_part_000 (store_with_game game_voted) ''g1'')) ''g1'') = []
   \<and> archived (snd (ArchiveStepResults_part_000 (store_with_game game_voted) ''g1'')) ''g1'' = []"
proof -
  have ok: "fst (ArchiveStepResults_part_000 (store_with_game game_voted) ''g1'') = None"
    by (simp add: ArchiveStepResults_part_000_result game_voted_facts)
  show ?thesis
    by (simp add: ok stored_steps_def archived_def ArchiveStepResults_part_000_store
        game_voted_facts game_voted_results)
qed

section \<open>Invitations: the loops\<close>

lemma accept_in_list_terminal:
  assumes "distinct (map inv_Bin invs)" and "iv \<in> set invs" and "inv_Bin iv = invitationId"
    and "inv_Accepted iv \<or> inv_Declined iv"
  shows "accept_in_list invs invitationId =
           Inl (if inv_Accepted iv then AlreadyAccepted else AlreadyDeclined)"
  using assms
proof (induction invs)
  case Nil
  then show ?case by simp
next
  case (Cons a invs)
  show ?case
  proof (cases "a = iv")
    case True
    with Cons.prems show ?thesis by auto
  next
    case False
    with Cons.prems have "inv_Bin a \<noteq> invitationId" by force
    with Cons False show ?thesis by auto
  qed
qed

lemma accept_in_list_exclusive:
  "accept_in_list invs invitationId = Inr (invs', found) \<Longrightarrow> list_all exclusive invs \<Longrightarrow>
   list_all exclusive invs'"
proof (induction invs arbitrary: invs' found)
  case Nil
  then show ?case by simp
next
  case (Cons a invs)
  then show ?case
    by (auto simp: exclusive_def split: if_splits sum.splits)
qed

lemma accept_in_list_found:
  "accept_in_list invs invitationId = Inr (invs', found) \<Longrightarrow>
   find (\<lambda>i. inv_Bin i = invitationId) invs' = Some iv \<Longrightarrow>
   inv_Accepted iv \<and> \<not> inv_Declined iv \<and> inv_Status iv = ''accepted''"
proof (induction invs arbitrary: invs' found)
  case Nil
  then show ?case by simp
next
  case (Cons a invs)
  then show ?case
    by (auto split: if_splits sum.splits)
qed

lemma decline_in_list_exclusive:
  "list_all exclusive invs \<Longrightarrow> list_all exclusive (decline_in_list invs invitationId)"
  by (induction invs) (auto simp: exclusive_def)

lemma decline_in_list_found:
  "find (\<lambda>i. inv_Bin i = invitationId) (decline_in_list invs invitationId) = Some iv \<Longrightarrow>
   inv_Declined iv \<and> \<not> inv_Accepted iv \<and> inv_Status iv = ''declined''"
  by (induction invs) (auto split: if_splits)

lemma decline_in_list_first:
  "find (\<lambda>i. inv_Bin i = invitationId) invs = Some iv \<Longrightarrow>
   find (\<lambda>i. inv_Bin i = invitationId) (decline_in_list invs invitationId) =
     Some (iv\<lparr>inv_Declined := True, inv_Accepted := False, inv_Status := ''declined''\<rparr>)"
  by (induction invs) (auto split: if_splits)

lemma find_distinct:
  "distinct (map inv_Bin invs) \<Longrightarrow> iv \<in> set invs \<Longrightarrow> inv_Bin iv = invitationId \<Longrightarrow>
   find (\<lambda>i. inv_Bin i = invitationId) invs = Some iv"
  by (induction invs) force+

lemma DeclineGameGroupInvitation_player:
  "fst (DeclineGameGroupInvitation st p invitationId groupId) =
     p\<lparr>plr_Invitations := decline_in_list (plr_Invitations p) invitationId\<rparr>"
  by (simp add: DeclineGameGroupInvitation_def Let_def case_prod_beta
      split: option.splits sum.splits)

section \<open>Invitations: accepting and declining\<close>

text \<open>
  C6. The invitations of a player have distinct bins. When the one with the given bin is
  already accepted, \<open>AcceptGroupInvitation\<close> returns the error "already accepted"; when it
  is declined (and not accepted), the error "already declined". In both cases the
  player, with all fields of the invitation, and the store are what they were: the
  function returns before it writes anything.
\<close>
theorem AcceptGroupInvitation_rejects_terminal:
  assumes "distinct (map inv_Bin (plr_Invitations p))" and "iv \<in> set (plr_Invitations p)"
    and "inv_Bin iv = invitationId" and "inv_Accepted iv \<or> inv_Declined iv"
  shows "AcceptGroupInvitation st p invitationId groupId =
           (Inl (if inv_Accepted iv then AlreadyAccepted else AlreadyDeclined), p, st)"
  using accept_in_list_terminal [OF assms] by (simp add: AcceptGroupInvitation_def)

theorem AcceptGroupInvitation_rejects_terminal_witness:
  "AcceptGroupInvitation online
     (player_with ''p2'' [invitation_to ''i0'', (invitation_to ''i1'')\<lparr>inv_Accepted := True\<rparr>])
     ''i1'' ''grp1'' =
   (Inl AlreadyAccepted,
    player_with ''p2'' [invitation_to ''i0'', (invitation_to ''i1'')\<lparr>inv_Accepted := True\<rparr>],
    online)
   \<and> AcceptGroupInvitation online
     (player_with ''p2'' [invitation_to ''i0'', (invitation_to ''i1'')\<lparr>inv_Declined := True\<rparr>])
     ''i1'' ''grp1'' =
   (Inl AlreadyDeclined,
    player_with ''p2'' [invitation_to ''i0'', (invitation_to ''i1'')\<lparr>inv_Declined := True\<rparr>],
    online)"
  using AcceptGroupInvitation_rejects_terminal
     [of "player_with ''p2'' [invitation_to ''i0'', (invitation_to ''i1'')\<lparr>inv_Accepted := True\<rparr>]"
         "(invitation_to ''i1'')\<lparr>inv_Accepted := True\<rparr>" "''i1''" online "''grp1''"]
    AcceptGroupInvitation_rejects_terminal
     [of "player_with ''p2'' [invitation_to ''i0'', (invitation_to ''i1'')\<lparr>inv_Declined := True\<rparr>]"
         "(invitation_to ''i1'')\<lparr>inv_Declined := True\<rparr>" "''i1''" online "''grp1''"]
  by (simp add: player_with_def invitation_to_def zero_invitation_def)

text \<open>
  C5 (the claim fails on the code). \<open>DeclineGameGroupInvitation\<close> has no result to report
  a failure with, and does not look at the state of the invitation: declining an
  invitation that is already accepted turns it into a declined one.
\<close>
theorem DeclineGameGroupInvitation_flips_accepted:
  "fst (DeclineGameGroupInvitation online
          (player_with ''p2'' [(invitation_to ''i1'')\<lparr>inv_Accepted := True, inv_Status := ''accepted''\<rparr>])
          ''i1'' ''grp1'') =
   player_with ''p2'' [(invitation_to ''i1'')\<lparr>inv_Accepted := False, inv_Declined := True,
                         inv_Status := ''declined''\<rparr>]"
  by (simp add: DeclineGameGroupInvitation_player player_with_def invitation_to_def
      zero_invitation_def)

text \<open>
  C5, as amended. For an invitation that is already accepted or declined, accepting
  fails with an explicit error, and declining does not fail: it sets \<open>declined\<close> to true,
  \<open>accepted\<close> to false and \<open>status\<close> to "declined" on that invitation, whatever it was.
\<close>

theorem terminal_invitation_accept_fails_decline_overwrites:
  assumes "distinct (map inv_Bin (plr_Invitations p))" and "iv \<in> set (plr_Invitations p)"
    and "inv_Bin iv = invitationId" and "inv_Accepted iv \<or> inv_Declined iv"
  shows "fst (AcceptGroupInvitation st p invitationId groupId) =
           Inl (if inv_Accepted iv then AlreadyAccepted else AlreadyDeclined)
         \<and> find (\<lambda>i. inv_Bin i = invitationId)
             (plr_Invitations (fst (DeclineGameGroupInvitation st p invitationId groupId))) =
           Some (iv\<lparr>inv_Declined := True, inv_Accepted := False, inv_Status := ''declined''\<rparr>)"
  using accept_in_list_terminal [OF assms] decline_in_list_first [OF find_distinct [OF assms(1-3)]]
  by (simp add: AcceptGroupInvitation_def DeclineGameGroupInvitation_player)

theorem terminal_invitation_accept_fails_decline_overwrites_witness:
  "fst (AcceptGroupInvitation online
          (player_with ''p2'' [(invitation_to ''i1'')\<lparr>inv_Accepted := True\<rparr>]) ''i1'' ''grp1'') =
     Inl AlreadyAccepted
   \<and> find (\<lambda>i. inv_Bin i = ''i1'')
       (plr_Invitations (fst (DeclineGameGroupInvitation online
          (player_with ''p2'' [(invitation_to ''i1'')\<lparr>inv_Accepted := True\<rparr>]) ''i1'' ''grp1''))) =
     Some ((invitation_to ''i1'')\<lparr>inv_Declined := True, inv_Accepted := False,
             inv_Status := ''declined''\<rparr>)"
  using terminal_invitation_accept_fails_decline_overwrites
     [of "player_with ''p2'' [(invitation_to ''i1'')\<lparr>inv_Accepted := True\<rparr>]"
         "(invitation_to ''i1'')\<lparr>inv_Accepted := True\<rparr>" "''i1''" online "''grp1''"]
  by (simp add: player_with_def invitation_to_def zero_invitation_def)

section \<open>Invitations: never both accepted and declined\<close>

lemma list_all_update:
  "P v \<Longrightarrow> list_all P (map snd al) \<Longrightarrow> list_all P (map snd (AList.update k v al))"
  by (induction al) auto

lemma array_node_values: "map snd (array_node xs) = xs"
  by (simp add: array_node_def)

lemma UpdateInvitation_exclusive:
  "stored_exclusive st \<Longrightarrow> stored_exclusive (snd (UpdateInvitation st pId inviteId True False))"
  by (cases "call_ok st")
     (auto simp: UpdateInvitation_def remote_call_eq stored_exclusive_def stored_invitations_def
        Let_def exclusive_def intro!: list_all_update)

lemma UpdatePlayer_group_ids_exclusive:
  "stored_exclusive st \<Longrightarrow> stored_exclusive (snd (UpdatePlayer st b [SetGroupIds ids]))"
  by (cases "call_ok st")
     (auto simp: UpdatePlayer_def remote_call_eq stored_exclusive_def stored_invitations_def)

lemma UpdatePlayer_invitations_exclusive:
  "stored_exclusive st \<Longrightarrow> list_all exclusive invs \<Longrightarrow>
   stored_exclusive (snd (UpdatePlayer st b [SetInvitations invs]))"
  by (cases "call_ok st")
     (auto simp: UpdatePlayer_def remote_call_eq stored_exclusive_def stored_invitations_def
        array_node_values)

lemma GetByBin_game_groups_players:
  "db_players (snd (GetByBin_game_groups st b)) = db_players st"
  by (cases "call_ok st") (simp_all add: GetByBin_game_groups_def remote_call_eq)

lemma AddPlayerToGroupMembers_players:
  "db_players (snd (AddPlayerToGroupMembers st gId bin m)) = db_players st"
  by (cases "call_ok st") (simp_all add: AddPlayerToGroupMembers_def remote_call_eq Let_def)

lemma UpdateGameGroup_members_players:
  "db_players (snd (UpdateGameGroup_members st b ms)) = db_players st"
  by (cases "call_ok st") (simp_all add: UpdateGameGroup_members_def remote_call_eq)

lemma stored_exclusive_cong:
  "db_players st' = db_players st \<Longrightarrow> stored_exclusive st' = stored_exclusive st"
  by (simp add: stored_exclusive_def stored_invitations_def)


lemma AcceptGroupInvitation_player:
  "fst (snd (AcceptGroupInvitation st p invitationId groupId)) =
     (case accept_in_list (plr_Invitations p) invitationId of
        Inl e \<Rightarrow> p
      | Inr (invs, found) \<Rightarrow>
          p\<lparr>plr_Invitations := invs,
            plr_GroupIds := (if groupId \<in> set (plr_GroupIds p) then plr_GroupIds p
                             else plr_GroupIds p @ [groupId])\<rparr>)"
  by (simp add: AcceptGroupInvitation_def Let_def case_prod_beta
      split: option.splits sum.splits)

lemma AcceptGroupInvitation_players:
  "db_players (snd (snd (AcceptGroupInvitation st p invitationId groupId))) =
     (case accept_in_list (plr_Invitations p) invitationId of
        Inl e \<Rightarrow> db_players st
      | Inr (invs, found) \<Rightarrow>
          db_players (snd (UpdatePlayer
            (if found then snd (UpdateInvitation st (plr_Bin p) invitationId True False) else st)
            (plr_Bin p)
            [SetGroupIds (if groupId \<in> set (plr_GroupIds p) then plr_GroupIds p
                          else plr_GroupIds p @ [groupId])])))"
  by (simp add: AcceptGroupInvitation_def Let_def case_prod_beta
      GetByBin_game_groups_players AddPlayerToGroupMembers_players
      split: option.splits sum.splits)

lemma DeclineGameGroupInvitation_players:
  "db_players (snd (DeclineGameGroupInvitation st p invitationId groupId)) =
     db_players (snd (UpdatePlayer st (plr_Bin p)
        [SetInvitations (decline_in_list (plr_Invitations p) invitationId)]))"
  by (simp add: DeclineGameGroupInvitation_def Let_def case_prod_beta
      GetByBin_game_groups_players UpdateGameGroup_members_players
      split: option.splits sum.splits)

lemma AcceptGroupInvitation_invariant:
  assumes "list_all exclusive (plr_Invitations p)" and "stored_exclusive st"
  shows "list_all exclusive (plr_Invitations (fst (snd (AcceptGroupInvitation st p invitationId groupId))))
         \<and> stored_exclusive (snd (snd (AcceptGroupInvitation st p invitationId groupId)))"
proof (cases "accept_in_list (plr_Invitations p) invitationId")
  case (Inl e)
  with assms show ?thesis
    by (simp add: AcceptGroupInvitation_def)
next
  case (Inr r)
  obtain invs found where r: "r = (invs, found)" by (cases r)
  have invs: "list_all exclusive invs"
    using accept_in_list_exclusive [of "plr_Invitations p" invitationId invs found] Inr r assms(1)
    by simp
  let ?st1 = "if found then snd (UpdateInvitation st (plr_Bin p) invitationId True False) else st"
  have "stored_exclusive ?st1"
    using assms(2) by (simp add: UpdateInvitation_exclusive)
  then have "stored_exclusive (snd (UpdatePlayer ?st1 (plr_Bin p)
            [SetGroupIds (if groupId \<in> set (plr_GroupIds p) then plr_GroupIds p
                          else plr_GroupIds p @ [groupId])]))"
    by (rule UpdatePlayer_group_ids_exclusive)
  then have "stored_exclusive (snd (snd (AcceptGroupInvitation st p invitationId groupId)))"
    using Inr r
    by (simp add: stored_exclusive_cong [OF AcceptGroupInvitation_players [of st p invitationId groupId, unfolded Inr r, simplified]])
  moreover have "list_all exclusive
      (plr_Invitations (fst (snd (AcceptGroupInvitation st p invitationId groupId))))"
    using Inr r invs by (simp add: AcceptGroupInvitation_player)
  ultimately show ?thesis by simp
qed

lemma DeclineGameGroupInvitation_invariant:
  assumes "list_all exclusive (plr_Invitations p)" and "stored_exclusive st"
  shows "list_all exclusive (plr_Invitations (fst (DeclineGameGroupInvitation st p invitationId groupId)))
         \<and> stored_exclusive (snd (DeclineGameGroupInvitation st p invitationId groupId))"
proof -
  have d: "list_all exclusive (decline_in_list (plr_Invitations p) invitationId)"
    using assms(1) by (rule decline_in_list_exclusive)
  have "stored_exclusive (snd (UpdatePlayer st (plr_Bin p)
        [SetInvitations (decline_in_list (plr_Invitations p) invitationId)]))"
    using assms(2) d by (rule UpdatePlayer_invitations_exclusive)
  then have "stored_exclusive (snd (DeclineGameGroupInvitation st p invitationId groupId))"
    by (simp add: stored_exclusive_cong [OF DeclineGameGroupInvitation_players])
  then show ?thesis using d by (simp add: DeclineGameGroupInvitation_player)
qed

lemma apply_op_invariant:
  assumes "list_all exclusive (plr_Invitations (fst ps))" and "stored_exclusive (snd ps)"
  shows "list_all exclusive (plr_Invitations (fst (apply_op operation ps)))
         \<and> stored_exclusive (snd (apply_op operation ps))"
proof (cases ps)
  case (Pair p st)
  with assms show ?thesis
    using AcceptGroupInvitation_invariant [of p st] DeclineGameGroupInvitation_invariant [of p st]
    by (cases operation) simp_all
qed

lemma apply_ops_invariant:
  "list_all exclusive (plr_Invitations (fst ps)) \<Longrightarrow> stored_exclusive (snd ps) \<Longrightarrow>
   list_all exclusive (plr_Invitations (fst (apply_ops ops ps)))
   \<and> stored_exclusive (snd (apply_ops ops ps))"
  unfolding apply_ops_def
proof (induction ops arbitrary: ps)
  case Nil
  then show ?case by simp
next
  case (Cons operation ops)
  from apply_op_invariant [OF Cons.prems]
  have "list_all exclusive (plr_Invitations (fst (apply_op operation ps)))"
    and "stored_exclusive (snd (apply_op operation ps))" by simp_all
  from Cons.IH [OF this] show ?case by simp
qed

text \<open>
  C7. Take a player none of whose invitations is both accepted and declined, and a store
  that holds no such invitation either. After any run of \<open>AcceptGroupInvitation\<close> and
  \<open>DeclineGameGroupInvitation\<close> calls on the player, with any invitations and groups, that
  is still so, in the player and in the store. An accept that succeeds leaves the
  invitation it was given accepted and not declined; a decline leaves it declined and
  not accepted.
\<close>

theorem accept_decline_keep_exclusive:
  assumes "list_all exclusive (plr_Invitations p)" and "stored_exclusive st"
  shows "list_all exclusive (plr_Invitations (fst (apply_ops ops (p, st))))
         \<and> stored_exclusive (snd (apply_ops ops (p, st)))
         \<and> (\<forall>iv. fst (AcceptGroupInvitation st p invitationId groupId) = Inr True \<and>
                 find (\<lambda>i. inv_Bin i = invitationId)
                   (plr_Invitations (fst (snd (AcceptGroupInvitation st p invitationId groupId)))) =
                   Some iv
                 \<longrightarrow> inv_Accepted iv \<and> \<not> inv_Declined iv)
         \<and> (\<forall>iv. find (\<lambda>i. inv_Bin i = invitationId)
                   (plr_Invitations (fst (DeclineGameGroupInvitation st p invitationId groupId))) =
                   Some iv
                 \<longrightarrow> inv_Declined iv \<and> \<not> inv_Accepted iv)"
proof -
  have a: "inv_Accepted iv \<and> \<not> inv_Declined iv"
    if ok: "fst (AcceptGroupInvitation st p invitationId groupId) = Inr True"
      and f: "find (\<lambda>i. inv_Bin i = invitationId)
               (plr_Invitations (fst (snd (AcceptGroupInvitation st p invitationId groupId)))) = Some iv"
    for iv
  proof (cases "accept_in_list (plr_Invitations p) invitationId")
    case (Inl e)
    with ok show ?thesis by (simp add: AcceptGroupInvitation_def)
  next
    case (Inr r)
    obtain invs found where r: "r = (invs, found)" by (cases r)
    from f Inr r have "find (\<lambda>i. inv_Bin i = invitationId) invs = Some iv"
      by (simp add: AcceptGroupInvitation_player)
    with accept_in_list_found [of "plr_Invitations p" invitationId invs found iv] Inr r
    show ?thesis by simp
  qed
  have d: "inv_Declined iv \<and> \<not> inv_Accepted iv"
    if "find (\<lambda>i. inv_Bin i = invitationId)
          (plr_Invitations (fst (DeclineGameGroupInvitation st p invitationId groupId))) = Some iv"
    for iv
    using that decline_in_list_found [of invitationId "plr_Invitations p" iv]
    by (simp add: DeclineGameGroupInvitation_player)
  from apply_ops_invariant [of "(p, st)" ops] assms a d show ?thesis by auto
qed

lemma online_exclusive: "stored_exclusive online"
  by (simp add: stored_exclusive_def stored_invitations_def online_def)

theorem accept_decline_keep_exclusive_witness:
  "list_all exclusive
     (plr_Invitations (fst (apply_ops
        [Accept ''i1'' ''grp1'', Decline ''i1'' ''grp1'', Accept ''i1'' ''grp1'']
        (player_with ''p2'' [invitation_to ''i1''], store_with_group group1))))
   \<and> stored_exclusive (snd (apply_ops
        [Accept ''i1'' ''grp1'', Decline ''i1'' ''grp1'', Accept ''i1'' ''grp1'']
        (player_with ''p2'' [invitation_to ''i1''], store_with_group group1)))"
proof -
  have h1: "list_all exclusive (plr_Invitations (player_with ''p2'' [invitation_to ''i1'']))"
    by (simp add: player_with_def invitation_to_def zero_invitation_def exclusive_def)
  have h2: "stored_exclusive (store_with_group group1)"
    by (simp add: stored_exclusive_def stored_invitations_def store_with_group_def online_def)
  show ?thesis
    using accept_decline_keep_exclusive [OF h1 h2] by simp
qed

section \<open>Joining a group, and the next step\<close>

lemma store_with_group_fields:
  "faults (store_with_group g) = []"
  "db_game_groups (store_with_group g) = [grp_Bin g \<mapsto> g]"
  "db_players (store_with_group g) = db_players online"
  by (simp_all add: store_with_group_def online_def)

text \<open>
  C8 (the claim fails on the code). Group grp1 has no members; player p2 accepts an
  invitation to it, and then player p3 does. Both calls succeed. After the first the
  group has one member entry, p2, under the key grp1, which is the group's bin and not
  the player's; the second call writes p3 under the same key, so p2 is no longer a
  member.
\<close>

theorem AcceptGroupInvitation_keys_member_by_group_bin:
  "(case AcceptGroupInvitation (store_with_group group1)
           (player_with ''p2'' [invitation_to ''i2'']) ''i2'' ''grp1'' of
      (r2, p2, st2) \<Rightarrow>
        (case AcceptGroupInvitation st2 (player_with ''p3'' [invitation_to ''i3'']) ''i3'' ''grp1'' of
           (r3, p3, st3) \<Rightarrow>
             (r2, map (\<lambda>(k, m). (k, plr_Bin m)) (stored_members st2 ''grp1''),
              r3, map (\<lambda>(k, m). (k, plr_Bin m)) (stored_members st3 ''grp1'')))) =
   (Inr True, [(''grp1'', ''p2'')], Inr True, [(''grp1'', ''p3'')])"
  by (simp add: AcceptGroupInvitation_def UpdateInvitation_def UpdatePlayer_def
      GetByBin_game_groups_def AddPlayerToGroupMembers_def remote_call_no_fault
      store_with_group_fields Let_def player_with_def invitation_to_def zero_invitation_def
      group1_def zero_group_def stored_members_def)

lemma store_with_steps_fields:
  "faults store_with_steps = []"
  "db_games store_with_steps ''g1'' = Some game_at_step_1"
  "map_option step_NextStep (db_steps store_with_steps ''1'') = Some ''2''"
  "map_option step_Bin (db_steps store_with_steps ''1'') = Some ''1''"
  "map_option step_Bin (db_steps store_with_steps ''2'') = Some ''2''"
  by (simp_all add: store_with_steps_def online_def new_step_def zero_step_def)

text \<open>
  C9 (the claim fails on the code). Game g1 is at step 1, whose \<open>nextStep\<close> is 2, and
  step 2 is in the store. \<open>SetNextStep\<close> returns without a panic, every call having
  succeeded, and the game is still at step 1.
\<close>

theorem SetNextStep_stays_on_current_step:
  "map_option game_CurrentStep (db_games store_with_steps ''g1'') = Some ''1''
   \<and> map_option step_NextStep (db_steps store_with_steps ''1'') = Some ''2''
   \<and> map_option step_Bin (db_steps store_with_steps ''2'') = Some ''2''
   \<and> (case SetNextStep store_with_steps ''g1'' of
        (r, st') \<Rightarrow> (r, map_option game_CurrentStep (db_games st' ''g1''))) = (None, Some ''1'')"
  by (simp add: SetNextStep_def GetByBin_games_def GetStepByBin_def UpdateGame_def
      remote_call_no_fault store_with_steps_def online_def game_at_step_1_def zero_game_def
      new_step_def zero_step_def Let_def)

text \<open>
  In general: when the step the game is on is stored under its own bin, the game is on
  the same step after \<open>SetNextStep\<close>, whatever the step's \<open>nextStep\<close> says.
\<close>

lemma SetNextStep_keeps_current_step:
  assumes "db_games st gameId = Some g" and "db_steps st (game_CurrentStep g) = Some s"
    and "step_Bin s = game_CurrentStep g"
  shows "map_option game_CurrentStep (db_games (snd (SetNextStep st gameId)) gameId) =
           Some (game_CurrentStep g)"
  using assms
  by (cases "call_ok st"; cases "call_ok (after_call st)";
      cases "call_ok (after_call (after_call st))"; cases "game_CurrentStep g = []")
     (simp_all add: SetNextStep_def GetByBin_games_def GetStepByBin_def UpdateGame_def
        remote_call_eq Let_def)

section \<open>Game invitations\<close>

lemma Itoa_0: "Itoa 0 = ''0''"
  by (simp add: Itoa_def nat_digits.simps digit_char_def)

lemma array_node_single: "array_node [x] = [(''0'', x)]"
  by (simp add: array_node_def Itoa_0)

lemma UpdateGame_players:
  "db_players (snd (UpdateGame st b m)) = db_players st"
  by (cases "call_ok st") (simp_all add: UpdateGame_def remote_call_eq)

lemma GetByBin_games_players:
  "db_players (snd (GetByBin_games st b)) = db_players st"
  by (cases "call_ok st") (simp_all add: GetByBin_games_def remote_call_eq)

lemma UpdatePlayer_invitations:
  "fst (UpdatePlayer st b [SetInvitations invs]) = None \<Longrightarrow>
   stored_invitations (snd (UpdatePlayer st b [SetInvitations invs])) b = array_node invs"
  by (cases "call_ok st")
     (simp_all add: UpdatePlayer_def remote_call_eq stored_invitations_def)

lemma UpdatePlayer_invitations_stored:
  "UpdatePlayer st b [SetInvitations invs] = (None, st') \<Longrightarrow>
   stored_invitations st' b = array_node invs"
  using UpdatePlayer_invitations [of st b invs] by simp

text \<open>
  C10. When \<open>AcceptGameInvitation\<close> or \<open>DeclineGameInvitation\<close> returns success, the
  invitations stored for the player are an array of one element, whatever was stored
  before: the invitation the call built, with the bin, group, creator and game of the
  one it was given, status "received", kind "game", the fixed message, and the flags
  of the reply.
\<close>

theorem game_invitation_reply_replaces_invitations:
  "(fst (AcceptGameInvitation st playerId invitation uuid) = Inr True \<longrightarrow>
      stored_invitations (snd (AcceptGameInvitation st playerId invitation uuid)) playerId =
        [(''0'', \<lparr>inv_Bin = inv_Bin invitation, inv_GameGroup = inv_GameGroup invitation,
                  inv_CreatorId = inv_CreatorId invitation, inv_Status = ''received'',
                  inv_Invitation = ''game'', inv_Message = message_down, inv_Time = [],
                  inv_GameId = inv_GameId invitation, inv_Accepted = True,
                  inv_Declined = False\<rparr>)])
   \<and> (fst (DeclineGameInvitation st playerId invitation) = Inr True \<longrightarrow>
      stored_invitations (snd (DeclineGameInvitation st playerId invitation)) playerId =
        [(''0'', \<lparr>inv_Bin = inv_Bin invitation, inv_GameGroup = inv_GameGroup invitation,
                  inv_CreatorId = inv_CreatorId invitation, inv_Status = ''received'',
                  inv_Invitation = ''game'', inv_Message = message_not_down, inv_Time = [],
                  inv_GameId = inv_GameId invitation, inv_Accepted = False,
                  inv_Declined = True\<rparr>)])"
proof -
  have a: "stored_invitations (snd (AcceptGameInvitation st playerId invitation uuid)) playerId =
             array_node [reply_invitation invitation message_down True False]"
    if "fst (AcceptGameInvitation st playerId invitation uuid) = Inr True"
    using that
    by (auto simp: AcceptGameInvitation_def Let_def
        split: prod.splits sum.splits option.splits if_splits
        dest: UpdatePlayer_invitations_stored)
  have d: "stored_invitations (snd (DeclineGameInvitation st playerId invitation)) playerId =
             array_node [reply_invitation invitation message_not_down False True]"
    if "fst (DeclineGameInvitation st playerId invitation) = Inr True"
    using that
    by (auto simp: DeclineGameInvitation_def Let_def
        split: prod.splits sum.splits option.splits if_splits
        dest: UpdatePlayer_invitations_stored)
  show ?thesis using a d by (simp add: array_node_single reply_invitation_def)
qed

lemma store_with_invitations_fields:
  "faults store_with_invitations = []"
  "db_games store_with_invitations ''g1'' = Some game_with_gamer"
  "map fst (stored_invitations store_with_invitations ''p2'') = [''i1'', ''i2'']"
  by (simp_all add: store_with_invitations_def online_def stored_invitations_def)

lemma game_with_gamer_fields:
  "game_Gamers game_with_gamer \<noteq> []"
  by (simp add: game_with_gamer_def zero_game_def)

lemma accept_game_ok:
  "fst (AcceptGameInvitation store_with_invitations ''p2'' (invitation_to ''i1'') ''gm2'') = Inr True"
  by (simp add: AcceptGameInvitation_def GetByBin_games_def UpdateGame_def UpdatePlayer_def
      remote_call_no_fault store_with_invitations_fields game_with_gamer_fields Let_def
      invitation_to_def zero_invitation_def)

lemma decline_game_ok:
  "fst (DeclineGameInvitation store_with_invitations ''p2'' (invitation_to ''i1'')) = Inr True"
  by (simp add: DeclineGameInvitation_def GetByBin_games_def UpdateGame_def UpdatePlayer_def
      remote_call_no_fault store_with_invitations_fields Let_def
      invitation_to_def zero_invitation_def)

theorem game_invitation_reply_replaces_invitations_witness:
  "map fst (stored_invitations store_with_invitations ''p2'') = [''i1'', ''i2'']
   \<and> fst (AcceptGameInvitation store_with_invitations ''p2'' (invitation_to ''i1'') ''gm2'') = Inr True
   \<and> map (\<lambda>(k, i). (k, inv_Bin i, inv_Status i, inv_Accepted i, inv_Declined i))
        (stored_invitations
          (snd (AcceptGameInvitation store_with_invitations ''p2'' (invitation_to ''i1'') ''gm2''))
          ''p2'') = [(''0'', ''i1'', ''received'', True, False)]
   \<and> fst (DeclineGameInvitation store_with_invitations ''p2'' (invitation_to ''i1'')) = Inr True
   \<and> map (\<lambda>(k, i). (k, inv_Bin i, inv_Status i, inv_Accepted i, inv_Declined i))
        (stored_invitations
          (snd (DeclineGameInvitation store_with_invitations ''p2'' (invitation_to ''i1'')))
          ''p2'') = [(''0'', ''i1'', ''received'', False, True)]"
  using game_invitation_reply_replaces_invitations
      [of store_with_invitations "''p2''" "invitation_to ''i1''" "''gm2''"]
    accept_game_ok decline_game_ok
  by (simp add: store_with_invitations_fields invitation_to_def zero_invitation_def)

lemma game_invitation_part_000_replaces_invitations:
  "(fst (AcceptGameInvitation_part_000 st playerId invitation) = Inr True \<longrightarrow>
      stored_invitations (snd (AcceptGameInvitation_part_000 st playerId invitation)) playerId =
        [(''0'', reply_invitation invitation message_down True False)])
   \<and> (fst (DeclineGameInvitation_part_000 st playerId invitation) = Inr True \<longrightarrow>
      stored_invitations (snd (DeclineGameInvitation_part_000 st playerId invitation)) playerId =
        [(''0'', reply_invitation invitation message_not_down False True)])"
  by (auto simp: AcceptGameInvitation_part_000_def DeclineGameInvitation_part_000_def
      array_node_single split: prod.splits option.splits dest: UpdatePlayer_invitations_stored)

end
